theory Spec2Isabelle
  imports Main "HOL-Library.Word"
begin

section \<open>Cluster membership manager (distributed/membership.go)\<close>

text \<open>
  The membership manager announces a data node to a ZooKeeper ensemble and starts the
  schema fetch job. Its two methods, \<open>Connect\<close> and \<open>Disconnect\<close>, are sequential Go
  code that talks to collaborators outside the file: the ZooKeeper client
  (\<open>zk.Connect\<close>, \<open>Conn.Create\<close>, \<open>Conn.Close\<close>), the operating system
  (\<open>os.Hostname\<close>), the JSON encoder and the schema fetch job. The embedding threads
  the manager through each method as a record, takes the answers of the collaborators
  from an environment record, and returns the list of the calls made to collaborators,
  each with the answer it got, in the order they were made. A Go string is a sequence of bytes, here a \<open>string\<close>.
\<close>

subsection \<open>Data\<close>

text \<open>
  Go's \<open>int\<close> on the 64-bit targets of the server is a 64-bit two's complement
  integer; \<open>int32\<close> has 32 bits.
\<close>

type_synonym go_int = "64 word"
type_synonym int32 = "32 word"

text \<open>
  Modelled from the spec: the declaration of the sentinel \<open>ErrInvalidInstanceName\<close>
  is not part of membership.go. Every other error reaches \<open>Connect\<close> from a
  collaborator and is passed on untouched; it is identified here by its message.
\<close>

datatype error = ErrInvalidInstanceName | ErrCollaborator string

text \<open>
  Modelled from the spec: \<open>common.AresServerConfig\<close> is declared outside
  membership.go; these are the fields the file reads (\<open>cfg.Cluster.InstanceName\<close>,
  \<open>cfg.Cluster.ClusterName\<close>, \<open>cfg.Port\<close>, \<open>cfg.Clients.ZK.ZKs\<close>,
  \<open>cfg.Clients.ZK.TimeoutSeconds\<close>).
\<close>

record ClusterConfig =
  InstanceName :: string
  ClusterName :: string

record ZKConfig =
  ZKs :: string
  TimeoutSeconds :: go_int

record ClientsConfig =
  ZK :: ZKConfig

record AresServerConfig =
  Port :: go_int
  Cluster :: ClusterConfig
  Clients :: ClientsConfig

text \<open>
  Modelled from the spec: the struct \<open>Instance\<close> is declared outside membership.go;
  the spec gives it the fields \<open>Name\<close>, \<open>Host\<close> and \<open>Port\<close> (the field selectors
  carry the prefix \<open>inst\<close> here, since \<open>Port\<close> is a field of the configuration too).
\<close>

record Instance =
  instName :: string
  instHost :: string
  instPort :: go_int

text \<open>
  A \<open>*zk.Conn\<close> is a session handle; \<open>nil\<close> is \<open>None\<close>. The meta store is an
  opaque handle that the manager only passes on.
\<close>

type_synonym conn = nat
type_synonym metaStore = nat

text \<open>
  Modelled from the spec: \<open>SchemaFetchJob\<close> and its constructor
  \<open>NewSchemaFetchJob(metaStore, validator, clusterName, zkc)\<close> are declared outside
  membership.go. The job is the record of what the constructor was given; the
  validator is made afresh by \<open>metastore.NewTableSchameValidator()\<close> at the call and
  has no state of its own.
\<close>

record SchemaFetchJob =
  jobMetaStore :: metaStore
  jobClusterName :: string
  jobZkc :: "conn option"

definition NewSchemaFetchJob :: "metaStore \<Rightarrow> string \<Rightarrow> conn option \<Rightarrow> SchemaFetchJob" where
  "NewSchemaFetchJob ms clusterName c =
     \<lparr>jobMetaStore = ms, jobClusterName = clusterName, jobZkc = c\<rparr>"

text \<open>
  The ZooKeeper client library: \<open>zk.ACL\<close> is a struct of permissions, scheme and id;
  \<open>zk.FlagEphemeral = 1\<close>, \<open>zk.PermAll = 0x1f\<close>, and \<open>zk.WorldACL(perms)\<close> is the
  one-element list \<open>[ACL{perms, "world", "anyone"}]\<close>.
\<close>

record ACL =
  Perms :: int32
  Scheme :: string
  ID :: string

definition zk_FlagEphemeral :: int32 where
  "zk_FlagEphemeral = 1"

definition zk_PermAll :: int32 where
  "zk_PermAll = 0x1f"

definition zk_WorldACL :: "int32 \<Rightarrow> ACL list" where
  "zk_WorldACL perms = [\<lparr>Perms = perms, Scheme = ''world'', ID = ''anyone''\<rparr>]"

text \<open>The struct \<open>membershipManagerImpl\<close> and its constructor.\<close>

record membershipManagerImpl =
  cfg :: AresServerConfig
  metaStore :: metaStore
  zkc :: "conn option"
  schemaFetchJob :: "SchemaFetchJob option"

definition NewMembershipManager :: "AresServerConfig \<Rightarrow> metaStore \<Rightarrow> membershipManagerImpl" where
  "NewMembershipManager c ms =
     \<lparr>cfg = c, metaStore = ms, zkc = None, schemaFetchJob = None\<rparr>"

subsection \<open>Collaborators and the trace of calls\<close>

text \<open>
  One event per call that leaves membership.go, with its arguments and its answer.
  \<open>EvGoRun\<close> is the statement \<open>go mm.schemaFetchJob.Run()\<close>: the start of the
  background loop.
\<close>

datatype event =
    EvZkConnect "string list" "64 word" "error + conn"
  | EvHostname "error + string"
  | EvMarshal Instance "error + string"
  | EvZkCreate conn string string int32 "ACL list" "error + string"
  | EvFetchApplySchema SchemaFetchJob bool "error option"
  | EvGoRun SchemaFetchJob
  | EvZkClose conn
  | EvStop SchemaFetchJob

text \<open>
  The answers of the collaborators during one call of \<open>Connect\<close>. \<open>zk.Connect\<close>
  answers with a connection and no error, or with no connection and an error.
\<close>

record env =
  zk_Connect :: "string list \<Rightarrow> 64 word \<Rightarrow> error + conn"
  os_Hostname :: "error + string"
  json_Marshal :: "Instance \<Rightarrow> error + string"
  zk_Create :: "conn \<Rightarrow> string \<Rightarrow> string \<Rightarrow> int32 \<Rightarrow> ACL list \<Rightarrow> error + string"
  FetchApplySchema :: "SchemaFetchJob \<Rightarrow> bool \<Rightarrow> error option"

text \<open>
  A method returns, or it panics. \<open>Create\<close> and \<open>Close\<close> read the fields of the
  connection they are called on, \<open>Stop\<close> those of the job: on a nil handle the call
  panics with a nil pointer dereference, and the panic says which handle was nil.
  \<open>Close\<close> closes the channel \<open>shouldQuit\<close> of the connection: on a connection that
  was closed before, it panics with a close of a closed channel.
\<close>

datatype handle = SessionHandle | JobHandle

datatype 'r outcome = Returns 'r | PanicNilDereference handle | PanicCloseOfClosedChannel

subsection \<open>The methods\<close>

text \<open>\<open>strings.Split(s, sep)\<close> for a separator of one byte.\<close>

fun strings_Split :: "string \<Rightarrow> char \<Rightarrow> string list" where
  "strings_Split [] sep = [[]]"
| "strings_Split (c # cs) sep =
     (if c = sep then [] # strings_Split cs sep
      else (case strings_Split cs sep of
              [] \<Rightarrow> [[c]]
            | w # ws \<Rightarrow> (c # w) # ws))"

text \<open>\<open>time.Second\<close> is \<open>1000000000\<close> nanoseconds; the product is an \<open>int64\<close> and wraps.\<close>

definition time_Second :: "64 word" where
  "time_Second = 1000000000"

definition initZKConnection ::
  "env \<Rightarrow> membershipManagerImpl \<Rightarrow> membershipManagerImpl \<times> error option \<times> event list" where
  "initZKConnection e mm =
     (let zksStr = ZKs (ZK (Clients (cfg mm)));
          zks = strings_Split zksStr CHR '','';
          timeout = TimeoutSeconds (ZK (Clients (cfg mm))) * time_Second;
          r = zk_Connect e zks timeout
      in case r of
           Inl err \<Rightarrow> (mm\<lparr>zkc := None\<rparr>, Some err, [EvZkConnect zks timeout r])
         | Inr c \<Rightarrow> (mm\<lparr>zkc := Some c\<rparr>, None, [EvZkConnect zks timeout r]))"

text \<open>
  \<open>Connect\<close> in three parts, in the order of the source: \<open>acquire_session\<close> is the
  block under the comment \<open>// connect to zk\<close> (lines 56 to 61), \<open>join_cluster\<close> the
  rest of the body (lines 63 to 105), which runs when the first block has returned no
  error. \<open>fmt.Sprintf\<close> with two \<open>%s\<close> verbs of strings is concatenation.
\<close>

definition acquire_session ::
  "env \<Rightarrow> membershipManagerImpl \<Rightarrow> membershipManagerImpl \<times> error option \<times> event list" where
  "acquire_session e mm =
     (if zkc mm = None then initZKConnection e mm else (mm, None, []))"

definition node_path :: "string \<Rightarrow> string \<Rightarrow> string" where
  "node_path clusterName instanceName =
     ''/ares_controller/'' @ clusterName @ ''/instances/'' @ instanceName"

definition join_cluster ::
  "env \<Rightarrow> membershipManagerImpl \<Rightarrow> membershipManagerImpl \<times> error option outcome \<times> event list" where
  "join_cluster e mm =
     (let instanceName = InstanceName (Cluster (cfg mm)) in
      if instanceName = [] then (mm, Returns (Some ErrInvalidInstanceName), [])
      else
        let h = os_Hostname e; tr1 = [EvHostname h] in
        case h of
          Inl err \<Rightarrow> (mm, Returns (Some err), tr1)
        | Inr hostName \<Rightarrow>
            let serverPort = Port (cfg mm);
                instance = \<lparr>instName = instanceName, instHost = hostName, instPort = serverPort\<rparr>;
                clusterName = ClusterName (Cluster (cfg mm));
                m = json_Marshal e instance;
                tr2 = tr1 @ [EvMarshal instance m]
            in case m of
                 Inl err \<Rightarrow> (mm, Returns (Some err), tr2)
               | Inr instanceBytes \<Rightarrow>
                   (case zkc mm of
                      None \<Rightarrow> (mm, PanicNilDereference SessionHandle, tr2)
                    | Some c \<Rightarrow>
                        let p = node_path clusterName instanceName;
                            acl = zk_WorldACL zk_PermAll;
                            r = zk_Create e c p instanceBytes zk_FlagEphemeral acl;
                            tr3 = tr2 @ [EvZkCreate c p instanceBytes zk_FlagEphemeral acl r]
                        in case r of
                             Inl err \<Rightarrow> (mm, Returns (Some err), tr3)
                           | Inr created \<Rightarrow>
                               let job = NewSchemaFetchJob (metaStore mm) clusterName (zkc mm);
                                   mm' = mm\<lparr>schemaFetchJob := Some job\<rparr>;
                                   f = FetchApplySchema e job True;
                                   tr4 = tr3 @ [EvFetchApplySchema job True f]
                               in case f of
                                    Some err \<Rightarrow> (mm', Returns (Some err), tr4)
                                  | None \<Rightarrow> (mm', Returns None, tr4 @ [EvGoRun job])))"

definition Connect ::
  "env \<Rightarrow> membershipManagerImpl \<Rightarrow> membershipManagerImpl \<times> error option outcome \<times> event list" where
  "Connect e mm =
     (case acquire_session e mm of
        (mm1, Some err, tr1) \<Rightarrow> (mm1, Returns (Some err), tr1)
      | (mm1, None, tr1) \<Rightarrow>
          (case join_cluster e mm1 of (mm2, out, tr2) \<Rightarrow> (mm2, out, tr1 @ tr2)))"

text \<open>
  \<open>Disconnect\<close> has no result; it returns (\<open>Returns ()\<close>) or panics. It does not
  assign to a field of the manager, so the manager keeps the handle of a session it
  has closed. Whether a connection is closed is state of the connection, outside the
  manager: \<open>closed\<close> is the set of the connections on which \<open>Close\<close> has returned, and
  \<open>Disconnect\<close> gives it back with the connection it closed. A call that panics
  leaves no event: the trace has the calls that returned. A panic in \<open>Close\<close> ends
  \<open>Disconnect\<close> before \<open>Stop\<close> is called. \<open>Stop\<close> is declared outside
  membership.go; on a job that is not nil it is taken as the spec describes it: it
  signals the loop to exit and returns.
\<close>

definition Disconnect ::
  "conn set \<Rightarrow> membershipManagerImpl
     \<Rightarrow> membershipManagerImpl \<times> unit outcome \<times> event list \<times> conn set" where
  "Disconnect closed mm =
     (case zkc mm of
        None \<Rightarrow> (mm, PanicNilDereference SessionHandle, [], closed)
      | Some c \<Rightarrow>
          if c \<in> closed then (mm, PanicCloseOfClosedChannel, [], closed)
          else
            (case schemaFetchJob mm of
               None \<Rightarrow> (mm, PanicNilDereference JobHandle, [EvZkClose c], insert c closed)
             | Some job \<Rightarrow> (mm, Returns (), [EvZkClose c, EvStop job], insert c closed)))"

text \<open>
  A sequence of calls of \<open>Connect\<close> on one manager, one environment per call; a panic
  ends the process and with it the sequence.
\<close>

fun Connects :: "env list \<Rightarrow> membershipManagerImpl \<Rightarrow> membershipManagerImpl \<times> event list" where
  "Connects [] mm = (mm, [])"
| "Connects (e # es) mm =
     (case Connect e mm of
        (mm', Returns r, tr) \<Rightarrow>
          (case Connects es mm' of (mm'', tr') \<Rightarrow> (mm'', tr @ tr'))
      | (mm', panic, tr) \<Rightarrow> (mm', tr))"

subsection \<open>Reading a trace\<close>

text \<open>
  The calls to the coordination service, the node creations, the sessions that were
  opened, the calls that tear down (\<open>Close\<close> and \<open>Stop\<close>), the starts of the background
  loop, the content a node was created with, and the error a call answered with.
\<close>

fun is_zk_call :: "event \<Rightarrow> bool" where
  "is_zk_call (EvZkConnect zks t r) = True"
| "is_zk_call (EvZkCreate c p d f a r) = True"
| "is_zk_call (EvZkClose c) = True"
| "is_zk_call ev = False"

fun is_create :: "event \<Rightarrow> bool" where
  "is_create (EvZkCreate c p d f a r) = True"
| "is_create ev = False"

fun is_zk_connect :: "event \<Rightarrow> bool" where
  "is_zk_connect (EvZkConnect zks t r) = True"
| "is_zk_connect ev = False"

fun session_opened :: "event \<Rightarrow> bool" where
  "session_opened (EvZkConnect zks t (Inr c)) = True"
| "session_opened ev = False"

fun is_teardown :: "event \<Rightarrow> bool" where
  "is_teardown (EvZkClose c) = True"
| "is_teardown (EvStop job) = True"
| "is_teardown ev = False"

fun is_go_run :: "event \<Rightarrow> bool" where
  "is_go_run (EvGoRun job) = True"
| "is_go_run ev = False"

fun node_data :: "event \<Rightarrow> string list" where
  "node_data (EvZkCreate c p d f a r) = [d]"
| "node_data ev = []"

fun ev_error :: "event \<Rightarrow> error option" where
  "ev_error (EvZkConnect zks t (Inl err)) = Some err"
| "ev_error (EvHostname (Inl err)) = Some err"
| "ev_error (EvMarshal i (Inl err)) = Some err"
| "ev_error (EvZkCreate c p d f a (Inl err)) = Some err"
| "ev_error (EvFetchApplySchema job b (Some err)) = Some err"
| "ev_error ev = None"

subsection \<open>The JSON encoder and decoder\<close>

text \<open>
  \<open>json.Marshal\<close> of an \<open>Instance\<close>, as the package encoding/json of the Go
  standard library writes a struct of two strings and an \<open>int\<close> with no field tags:
  an object with the fields in their order of declaration, no white space, each
  string through \<open>appendString\<close> with HTML escaping on, the integer in decimal.

  \<open>utf8.DecodeRuneInString\<close> gives the code point at the head of a string and the
  number of bytes it takes; a byte that starts no well-formed sequence gives
  \<open>(RuneError, 1)\<close>.
\<close>

definition RuneError :: nat where
  "RuneError = 0xFFFD"

definition cont :: "char \<Rightarrow> bool" where
  "cont c = (0x80 \<le> (of_char c :: nat) \<and> (of_char c :: nat) \<le> 0xBF)"

definition second_ok :: "char \<Rightarrow> char \<Rightarrow> bool" where
  "second_ok c0 c1 =
     (let b0 = (of_char c0 :: nat); b1 = (of_char c1 :: nat) in
      if b0 = 0xE0 then 0xA0 \<le> b1 \<and> b1 \<le> 0xBF
      else if b0 = 0xED then 0x80 \<le> b1 \<and> b1 \<le> 0x9F
      else if b0 = 0xF0 then 0x90 \<le> b1 \<and> b1 \<le> 0xBF
      else if b0 = 0xF4 then 0x80 \<le> b1 \<and> b1 \<le> 0x8F
      else 0x80 \<le> b1 \<and> b1 \<le> 0xBF)"

fun DecodeRune :: "string \<Rightarrow> nat \<times> nat" where
  "DecodeRune [] = (RuneError, 0)"
| "DecodeRune (c0 # s) =
     (let b0 = (of_char c0 :: nat) in
      if b0 < 0x80 then (b0, 1)
      else if 0xC2 \<le> b0 \<and> b0 \<le> 0xDF then
        (case s of
           c1 # _ \<Rightarrow>
             if second_ok c0 c1 then ((b0 mod 32) * 64 + of_char c1 mod 64, 2)
             else (RuneError, 1)
         | _ \<Rightarrow> (RuneError, 1))
      else if 0xE0 \<le> b0 \<and> b0 \<le> 0xEF then
        (case s of
           c1 # c2 # _ \<Rightarrow>
             if second_ok c0 c1 \<and> cont c2
             then ((b0 mod 16) * 4096 + (of_char c1 mod 64) * 64 + of_char c2 mod 64, 3)
             else (RuneError, 1)
         | _ \<Rightarrow> (RuneError, 1))
      else if 0xF0 \<le> b0 \<and> b0 \<le> 0xF4 then
        (case s of
           c1 # c2 # c3 # _ \<Rightarrow>
             if second_ok c0 c1 \<and> cont c2 \<and> cont c3
             then ((b0 mod 8) * 262144 + (of_char c1 mod 64) * 4096
                     + (of_char c2 mod 64) * 64 + of_char c3 mod 64, 4)
             else (RuneError, 1)
         | _ \<Rightarrow> (RuneError, 1))
      else (RuneError, 1))"

text \<open>\<open>utf8.ValidString\<close>: every byte belongs to a well-formed sequence.\<close>

function ValidString :: "string \<Rightarrow> bool" where
  "ValidString [] = True"
| "ValidString (b # rest) =
     (let c = fst (DecodeRune (b # rest)); sz = snd (DecodeRune (b # rest)) in
      if c = RuneError \<and> sz = 1 then False else ValidString (drop (sz - 1) rest))"
  by pat_completeness auto
termination
  by (relation "measure length") auto

text \<open>
  What the encoder and the decoder make of the bytes that are not UTF-8: each one
  becomes the three bytes of U+FFFD; well-formed sequences stay.
\<close>

function replace_invalid :: "string \<Rightarrow> string" where
  "replace_invalid [] = []"
| "replace_invalid (b # rest) =
     (let c = fst (DecodeRune (b # rest)); sz = snd (DecodeRune (b # rest)) in
      if c = RuneError \<and> sz = 1 then [CHR 0xEF, CHR 0xBF, CHR 0xBD] @ replace_invalid rest
      else b # take (sz - 1) rest @ replace_invalid (drop (sz - 1) rest))"
  by pat_completeness auto
termination
  by (relation "measure length") auto

definition dquote :: char where
  "dquote = CHR 0x22"

definition backslash :: char where
  "backslash = CHR 0x5C"

definition hex :: "nat \<Rightarrow> char" where
  "hex n = ''0123456789abcdef'' ! n"

text \<open>
  The table \<open>htmlSafeSet\<close>: the printable ASCII bytes and DEL, without the double
  quote, the backslash and the three bytes \<open>&\<close>, \<open><\<close>, \<open>>\<close>.
\<close>

definition htmlSafe :: "char \<Rightarrow> bool" where
  "htmlSafe b =
     (0x20 \<le> (of_char b :: nat) \<and> (of_char b :: nat) < 0x80
      \<and> b \<noteq> dquote \<and> b \<noteq> CHR ''&'' \<and> b \<noteq> CHR ''<'' \<and> b \<noteq> CHR ''>''
      \<and> b \<noteq> backslash)"

text \<open>
  The escape of an ASCII byte outside the table, as the Go releases of the time of
  the code write it (later releases shorten the bytes 8 and 12 to \<open>\b\<close> and \<open>\f\<close>,
  which the decoder below reads as well).
\<close>

definition escape_byte :: "char \<Rightarrow> string" where
  "escape_byte b =
     (if b = backslash \<or> b = dquote then [backslash, b]
      else if b = CHR 0x0A then [backslash, CHR ''n'']
      else if b = CHR 0x0D then [backslash, CHR ''r'']
      else if b = CHR 0x09 then [backslash, CHR ''t'']
      else [backslash, CHR ''u'', CHR ''0'', CHR ''0'',
            hex (of_char b div 16), hex (of_char b mod 16)])"

text \<open>
  The loop of \<open>appendString\<close> over the bytes of the string: a safe ASCII byte is
  copied, another ASCII byte escaped, a byte that is not UTF-8 replaced by the escape
  of U+FFFD, the line and paragraph separators U+2028 and U+2029 escaped, and every
  other well-formed sequence copied.
\<close>

function string_body :: "string \<Rightarrow> string" where
  "string_body [] = []"
| "string_body (b # rest) =
     (if (of_char b :: nat) < 0x80 then
        (if htmlSafe b then [b] else escape_byte b) @ string_body rest
      else
        (let c = fst (DecodeRune (b # rest)); sz = snd (DecodeRune (b # rest)) in
         if c = RuneError \<and> sz = 1 then
           (backslash # ''ufffd'') @ string_body rest
         else if c = 0x2028 \<or> c = 0x2029 then
           (backslash # ''u202'') @ [hex (c mod 16)] @ string_body (drop (sz - 1) rest)
         else b # take (sz - 1) rest @ string_body (drop (sz - 1) rest)))"
  by pat_completeness auto
termination
  by (relation "measure length") auto

definition appendString :: "string \<Rightarrow> string" where
  "appendString s = dquote # string_body s @ [dquote]"

text \<open>\<open>strconv.AppendInt(dst, v, 10)\<close>.\<close>

function digits :: "nat \<Rightarrow> string" where
  "digits n = (if n < 10 then [hex n] else digits (n div 10) @ [hex (n mod 10)])"
  by pat_completeness auto
termination
  by (relation "measure id") auto

definition FormatInt :: "go_int \<Rightarrow> string" where
  "FormatInt w =
     (if sint w < 0 then CHR ''-'' # digits (nat (- sint w)) else digits (nat (sint w)))"

definition encode_Instance :: "Instance \<Rightarrow> string" where
  "encode_Instance i =
     ''{'' @ appendString ''Name'' @ '':'' @ appendString (instName i) @ '',''
          @ appendString ''Host'' @ '':'' @ appendString (instHost i) @ '',''
          @ appendString ''Port'' @ '':'' @ FormatInt (instPort i) @ ''}''"

definition go_json_Marshal :: "Instance \<Rightarrow> error + string" where
  "go_json_Marshal i = Inr (encode_Instance i)"

text \<open>
  \<open>json.Unmarshal\<close> into an \<open>Instance\<close>, restricted to documents in the layout
  that \<open>Marshal\<close> writes (the three fields in order, no white space) and to escapes
  \<open>\u\<close> outside the surrogate range; on every other document the decoder here gives
  \<open>None\<close>. Inside a string literal it follows \<open>unquote\<close>: the two-character
  escapes, \<open>\u\<close> with four hexadecimal digits written out in UTF-8, a control byte
  refused, a byte that is not UTF-8 replaced by U+FFFD. The result is the string and
  the input after the closing quote.
\<close>

definition unhex :: "char \<Rightarrow> nat option" where
  "unhex c =
     (let b = (of_char c :: nat) in
      if 0x30 \<le> b \<and> b \<le> 0x39 then Some (b - 0x30)
      else if 0x61 \<le> b \<and> b \<le> 0x66 then Some (b - 0x61 + 10)
      else if 0x41 \<le> b \<and> b \<le> 0x46 then Some (b - 0x41 + 10)
      else None)"

fun getu4 :: "string \<Rightarrow> nat option" where
  "getu4 (a # b # c # d # s) =
     (case (unhex a, unhex b, unhex c, unhex d) of
        (Some x3, Some x2, Some x1, Some x0) \<Rightarrow> Some (x3 * 4096 + x2 * 256 + x1 * 16 + x0)
      | _ \<Rightarrow> None)"
| "getu4 s = None"

definition EncodeRune :: "nat \<Rightarrow> string" where
  "EncodeRune r =
     (if r < 0x80 then [char_of r]
      else if r < 0x800 then [char_of (0xC0 + r div 64), char_of (0x80 + r mod 64)]
      else if r < 0x10000 then
        [char_of (0xE0 + r div 4096), char_of (0x80 + r div 64 mod 64), char_of (0x80 + r mod 64)]
      else
        [char_of (0xF0 + r div 262144), char_of (0x80 + r div 4096 mod 64),
         char_of (0x80 + r div 64 mod 64), char_of (0x80 + r mod 64)])"

definition unescape :: "char \<Rightarrow> char option" where
  "unescape e =
     (if e = dquote \<or> e = backslash \<or> e = CHR ''/'' then Some e
      else if e = CHR ''b'' then Some (CHR 0x08)
      else if e = CHR ''f'' then Some (CHR 0x0C)
      else if e = CHR ''n'' then Some (CHR 0x0A)
      else if e = CHR ''r'' then Some (CHR 0x0D)
      else if e = CHR ''t'' then Some (CHR 0x09)
      else None)"

definition prepend :: "string \<Rightarrow> (string \<times> string) option \<Rightarrow> (string \<times> string) option" where
  "prepend p r = (case r of None \<Rightarrow> None | Some (t, k) \<Rightarrow> Some (p @ t, k))"

function unquote_body :: "string \<Rightarrow> (string \<times> string) option" where
  "unquote_body [] = None"
| "unquote_body (b # rest) =
     (if b = dquote then Some ([], rest)
      else if b = backslash then
        (case rest of
           [] \<Rightarrow> None
         | e # rest' \<Rightarrow>
             if e = CHR ''u'' then
               (case getu4 rest' of
                  None \<Rightarrow> None
                | Some r \<Rightarrow>
                    if 0xD800 \<le> r \<and> r < 0xE000 then None
                    else prepend (EncodeRune r) (unquote_body (drop 4 rest')))
             else
               (case unescape e of
                  None \<Rightarrow> None
                | Some ch \<Rightarrow> prepend [ch] (unquote_body rest')))
      else if (of_char b :: nat) < 0x20 then None
      else if (of_char b :: nat) < 0x80 then prepend [b] (unquote_body rest)
      else
        (let c = fst (DecodeRune (b # rest)); sz = snd (DecodeRune (b # rest)) in
         if c = RuneError \<and> sz = 1 then prepend (EncodeRune RuneError) (unquote_body rest)
         else prepend (b # take (sz - 1) rest) (unquote_body (drop (sz - 1) rest))))"
  by pat_completeness auto
termination
  by (relation "measure length") auto

text \<open>
  A JSON number for a field of type \<open>int\<close>: an optional minus sign, decimal digits
  with no leading zero, read as \<open>strconv.ParseInt\<close> does with 64 bits.
\<close>

definition digit_val :: "char \<Rightarrow> nat option" where
  "digit_val c =
     (let b = (of_char c :: nat) in if 0x30 \<le> b \<and> b \<le> 0x39 then Some (b - 0x30) else None)"

fun read_digits :: "nat \<Rightarrow> string \<Rightarrow> nat \<times> string" where
  "read_digits acc [] = (acc, [])"
| "read_digits acc (c # cs) =
     (case digit_val c of
        None \<Rightarrow> (acc, c # cs)
      | Some d \<Rightarrow> read_digits (acc * 10 + d) cs)"

definition parse_int :: "string \<Rightarrow> (go_int \<times> string) option" where
  "parse_int s =
     (let neg = (case s of c # cs \<Rightarrow> c = CHR ''-'' | [] \<Rightarrow> False);
          s1 = (if neg then tl s else s)
      in case s1 of
           [] \<Rightarrow> None
         | c # cs \<Rightarrow>
             (case digit_val c of
                None \<Rightarrow> None
              | Some d \<Rightarrow>
                  if d = 0 \<and> (case cs of c' # _ \<Rightarrow> digit_val c' \<noteq> None | [] \<Rightarrow> False) then None
                  else
                    (let n = fst (read_digits 0 s1); rest = snd (read_digits 0 s1);
                         v = (if neg then - int n else int n)
                     in if - (2 ^ 63) \<le> v \<and> v < 2 ^ 63 then Some (word_of_int v, rest)
                        else None)))"

definition expect :: "string \<Rightarrow> string \<Rightarrow> string option" where
  "expect p s = (if take (length p) s = p then Some (drop (length p) s) else None)"

definition decode_Instance :: "string \<Rightarrow> Instance option" where
  "decode_Instance s =
     (case expect (''{'' @ appendString ''Name'' @ '':'' @ [dquote]) s of
        None \<Rightarrow> None
      | Some s1 \<Rightarrow>
          (case unquote_body s1 of
             None \<Rightarrow> None
           | Some (name, s2) \<Rightarrow>
               (case expect ('','' @ appendString ''Host'' @ '':'' @ [dquote]) s2 of
                  None \<Rightarrow> None
                | Some s3 \<Rightarrow>
                    (case unquote_body s3 of
                       None \<Rightarrow> None
                     | Some (host, s4) \<Rightarrow>
                         (case expect ('','' @ appendString ''Port'' @ '':'') s4 of
                            None \<Rightarrow> None
                          | Some s5 \<Rightarrow>
                              (case parse_int s5 of
                                 None \<Rightarrow> None
                               | Some (port, s6) \<Rightarrow>
                                   if s6 = ''}''
                                   then Some \<lparr>instName = name, instHost = host, instPort = port\<rparr>
                                   else None))))))"

subsection \<open>The background loop of the schema fetch job\<close>

text \<open>
  Modelled from the spec: the method \<open>Run\<close> of \<open>SchemaFetchJob\<close> is declared outside
  membership.go. The spec: it loops, invoking \<open>FetchApplySchema(false)\<close> on a fixed
  interval, until \<open>Stop\<close> is invoked; an error in an iteration is reported and the loop
  goes on to the next interval. The loop waits for one of two signals, the interval
  elapsing or the stop; the model runs it over the signals that have arrived so far
  and says which calls it made and whether it has exited. The answer of the \<open>i\<close>-th
  fetch is \<open>fetch i\<close>.
\<close>

datatype signal = Tick | StopSignal

datatype run_event = RunFetch "error option" | RunReport error

fun Run :: "(nat \<Rightarrow> error option) \<Rightarrow> nat \<Rightarrow> signal list \<Rightarrow> run_event list \<times> bool" where
  "Run fetch i [] = ([], False)"
| "Run fetch i (StopSignal # sigs) = ([], True)"
| "Run fetch i (Tick # sigs) =
     (let r = fetch i;
          evs = (case r of None \<Rightarrow> [RunFetch r] | Some err \<Rightarrow> [RunFetch r, RunReport err])
      in case Run fetch (Suc i) sigs of (rest, exited) \<Rightarrow> (evs @ rest, exited))"

fun is_fetch :: "run_event \<Rightarrow> bool" where
  "is_fetch (RunFetch r) = True"
| "is_fetch ev = False"

fun reported :: "run_event \<Rightarrow> error list" where
  "reported (RunReport err) = [err]"
| "reported ev = []"

fun failure :: "error option \<Rightarrow> error list" where
  "failure (Some err) = [err]"
| "failure None = []"

subsection \<open>Example configurations and environments\<close>

text \<open>
  The end-to-end example of the spec: cluster \<open>c1\<close>, instance \<open>n1\<close>, host \<open>h1\<close>,
  port 8080, with every collaborator answering without error; the same with no
  instance name; an environment in which the host name is one byte that is not UTF-8;
  and environments in which one collaborator fails.
\<close>

definition cfg_example :: AresServerConfig where
  "cfg_example =
     \<lparr>Port = 8080,
      Cluster = \<lparr>InstanceName = ''n1'', ClusterName = ''c1''\<rparr>,
      Clients = \<lparr>ZK = \<lparr>ZKs = ''zk1:2181,zk2:2181'', TimeoutSeconds = 5\<rparr>\<rparr>\<rparr>"

definition cfg_no_name :: AresServerConfig where
  "cfg_no_name = cfg_example\<lparr>Cluster := \<lparr>InstanceName = [], ClusterName = ''c1''\<rparr>\<rparr>"

definition env_example :: env where
  "env_example =
     \<lparr>zk_Connect = (\<lambda>zks timeout. Inr 1),
      os_Hostname = Inr ''h1'',
      json_Marshal = go_json_Marshal,
      zk_Create = (\<lambda>c p d f a. Inr p),
      FetchApplySchema = (\<lambda>job initial. None)\<rparr>"

definition env_fetch_fails :: env where
  "env_fetch_fails =
     env_example\<lparr>FetchApplySchema := (\<lambda>job initial. Some (ErrCollaborator ''schema''))\<rparr>"

definition env_bad_host :: env where
  "env_bad_host = env_example\<lparr>os_Hostname := Inr [CHR 0xFF]\<rparr>"

definition env_create_fails :: env where
  "env_create_fails =
     env_example\<lparr>zk_Create := (\<lambda>c p d f a. Inl (ErrCollaborator ''zk: node already exists''))\<rparr>"

section \<open>Properties\<close>

subsection \<open>Unfolding and the example runs\<close>

lemmas Connect_defs =
  Connect_def acquire_session_def initZKConnection_def join_cluster_def Let_def

lemmas example_defs =
  cfg_example_def cfg_no_name_def env_example_def env_fetch_fails_def env_bad_host_def
  env_create_fails_def NewMembershipManager_def

lemmas run_defs =
  Connect_defs example_defs time_Second_def go_json_Marshal_def encode_Instance_def
  appendString_def dquote_def backslash_def htmlSafe_def FormatInt_def hex_def node_path_def
  zk_WorldACL_def zk_PermAll_def zk_FlagEphemeral_def NewSchemaFetchJob_def

lemma Connect_no_name_example:
  "Connect env_example (NewMembershipManager cfg_no_name 0) =
     (NewMembershipManager cfg_no_name 0\<lparr>zkc := Some 1\<rparr>,
      Returns (Some ErrInvalidInstanceName),
      [EvZkConnect [''zk1:2181'', ''zk2:2181''] 5000000000 (Inr 1)])"
  by (simp add: Connect_defs example_defs time_Second_def)

lemma Connect_example:
  "Connect env_example (NewMembershipManager cfg_example 0) =
     (NewMembershipManager cfg_example 0
        \<lparr>zkc := Some 1,
         schemaFetchJob := Some \<lparr>jobMetaStore = 0, jobClusterName = ''c1'', jobZkc = Some 1\<rparr>\<rparr>,
      Returns None,
      [EvZkConnect [''zk1:2181'', ''zk2:2181''] 5000000000 (Inr 1),
       EvHostname (Inr ''h1''),
       EvMarshal \<lparr>instName = ''n1'', instHost = ''h1'', instPort = 8080\<rparr>
         (Inr ''{\"Name\":\"n1\",\"Host\":\"h1\",\"Port\":8080}''),
       EvZkCreate 1 ''/ares_controller/c1/instances/n1''
         ''{\"Name\":\"n1\",\"Host\":\"h1\",\"Port\":8080}'' 1
         [\<lparr>Perms = 0x1f, Scheme = ''world'', ID = ''anyone''\<rparr>]
         (Inr ''/ares_controller/c1/instances/n1''),
       EvFetchApplySchema \<lparr>jobMetaStore = 0, jobClusterName = ''c1'', jobZkc = Some 1\<rparr> True None,
       EvGoRun \<lparr>jobMetaStore = 0, jobClusterName = ''c1'', jobZkc = Some 1\<rparr>])"
  by (simp add: run_defs)

lemma Connect_fetch_fails_example:
  "Connect env_fetch_fails (NewMembershipManager cfg_example 0) =
     (NewMembershipManager cfg_example 0
        \<lparr>zkc := Some 1,
         schemaFetchJob := Some \<lparr>jobMetaStore = 0, jobClusterName = ''c1'', jobZkc = Some 1\<rparr>\<rparr>,
      Returns (Some (ErrCollaborator ''schema'')),
      [EvZkConnect [''zk1:2181'', ''zk2:2181''] 5000000000 (Inr 1),
       EvHostname (Inr ''h1''),
       EvMarshal \<lparr>instName = ''n1'', instHost = ''h1'', instPort = 8080\<rparr>
         (Inr ''{\"Name\":\"n1\",\"Host\":\"h1\",\"Port\":8080}''),
       EvZkCreate 1 ''/ares_controller/c1/instances/n1''
         ''{\"Name\":\"n1\",\"Host\":\"h1\",\"Port\":8080}'' 1
         [\<lparr>Perms = 0x1f, Scheme = ''world'', ID = ''anyone''\<rparr>]
         (Inr ''/ares_controller/c1/instances/n1''),
       EvFetchApplySchema \<lparr>jobMetaStore = 0, jobClusterName = ''c1'', jobZkc = Some 1\<rparr> True
         (Some (ErrCollaborator ''schema''))])"
  by (simp add: run_defs)

lemma Connect_create_fails_example:
  "Connect env_create_fails (NewMembershipManager cfg_example 0) =
     (NewMembershipManager cfg_example 0\<lparr>zkc := Some 1\<rparr>,
      Returns (Some (ErrCollaborator ''zk: node already exists'')),
      [EvZkConnect [''zk1:2181'', ''zk2:2181''] 5000000000 (Inr 1),
       EvHostname (Inr ''h1''),
       EvMarshal \<lparr>instName = ''n1'', instHost = ''h1'', instPort = 8080\<rparr>
         (Inr ''{\"Name\":\"n1\",\"Host\":\"h1\",\"Port\":8080}''),
       EvZkCreate 1 ''/ares_controller/c1/instances/n1''
         ''{\"Name\":\"n1\",\"Host\":\"h1\",\"Port\":8080}'' 1
         [\<lparr>Perms = 0x1f, Scheme = ''world'', ID = ''anyone''\<rparr>]
         (Inl (ErrCollaborator ''zk: node already exists''))])"
  by (simp add: run_defs)

subsection \<open>Connect with an empty instance name\<close>

text \<open>
  Claim C1, as the spec states it: for every configuration whose instance name is the
  empty string, \<open>Connect\<close> returns the invalid-instance-name error and performs no
  coordination-service I/O. The code checks the name after the session step: on a
  manager that holds no session, the run below calls \<open>zk.Connect\<close> (and gets session
  1) before it returns the error, so the claim fails there.
\<close>

theorem Connect_empty_name_counterexample:
  "InstanceName (Cluster (cfg (NewMembershipManager cfg_no_name 0))) = []
   \<and> filter is_zk_call (snd (snd (Connect env_example (NewMembershipManager cfg_no_name 0))))
       = [EvZkConnect [''zk1:2181'', ''zk2:2181''] 5000000000 (Inr 1)]
   \<and> \<not> (fst (snd (Connect env_example (NewMembershipManager cfg_no_name 0)))
            = Returns (Some ErrInvalidInstanceName)
          \<and> filter is_zk_call
               (snd (snd (Connect env_example (NewMembershipManager cfg_no_name 0)))) = [])"
  by (simp add: Connect_no_name_example) (simp add: example_defs)

text \<open>
  Claim C1, amended: for every configuration whose instance name is the empty string,
  \<open>Connect\<close> issues no node-create call. On a manager that holds a session it returns
  the invalid-instance-name error with no call at all. On a manager that holds none it
  first calls \<open>zk.Connect\<close> on the configured servers, its only call; it returns the
  error of that call if it fails, and the invalid-instance-name error, with the new
  session kept in the manager, if it succeeds.
\<close>

theorem Connect_empty_name:
  assumes "InstanceName (Cluster (cfg mm)) = []"
  shows "Connect e mm =
     (case zkc mm of
        Some c \<Rightarrow> (mm, Returns (Some ErrInvalidInstanceName), [])
      | None \<Rightarrow>
          (let zks = strings_Split (ZKs (ZK (Clients (cfg mm)))) CHR '','';
               timeout = TimeoutSeconds (ZK (Clients (cfg mm))) * 1000000000;
               r = zk_Connect e zks timeout
           in case r of
                Inl err \<Rightarrow> (mm\<lparr>zkc := None\<rparr>, Returns (Some err), [EvZkConnect zks timeout r])
              | Inr c \<Rightarrow> (mm\<lparr>zkc := Some c\<rparr>, Returns (Some ErrInvalidInstanceName),
                           [EvZkConnect zks timeout r])))
     \<and> filter is_create (snd (snd (Connect e mm))) = []"
  using assms by (auto simp: Connect_defs time_Second_def split: option.splits sum.splits)

theorem Connect_empty_name_witness:
  "InstanceName (Cluster (cfg (NewMembershipManager cfg_no_name 0\<lparr>zkc := Some 1\<rparr>))) = []
   \<and> Connect env_example (NewMembershipManager cfg_no_name 0\<lparr>zkc := Some 1\<rparr>)
       = (NewMembershipManager cfg_no_name 0\<lparr>zkc := Some 1\<rparr>,
          Returns (Some ErrInvalidInstanceName), [])"
proof -
  have h: "InstanceName (Cluster (cfg (NewMembershipManager cfg_no_name 0\<lparr>zkc := Some 1\<rparr>))) = []"
    by (simp add: example_defs)
  show ?thesis
    using h Connect_empty_name [OF h, of env_example] by (simp add: example_defs)
qed

subsection \<open>The presence node\<close>

text \<open>
  Claim C2: in every run of \<open>Connect\<close> that returns no error, with cluster name \<open>C\<close>
  and instance name \<open>N\<close>, exactly one node-create call is made; it is for the path
  \<open>/ares_controller/C/instances/N\<close>, with the ephemeral flag (1) and the ACL
  \<open>world:anyone\<close> with all permissions (0x1f), on the session the manager holds, and it
  succeeded.
\<close>

theorem Connect_creates_one_node:
  assumes "Connect e mm = (mm', Returns None, tr)"
  shows "\<exists>c d r. filter is_create tr =
           [EvZkCreate c (''/ares_controller/'' @ ClusterName (Cluster (cfg mm)) @ ''/instances/''
                            @ InstanceName (Cluster (cfg mm)))
              d 1 [\<lparr>Perms = 0x1f, Scheme = ''world'', ID = ''anyone''\<rparr>] (Inr r)]
         \<and> zkc mm' = Some c"
  using assms
  by (auto simp: Connect_defs node_path_def zk_WorldACL_def zk_PermAll_def zk_FlagEphemeral_def
      split: option.splits sum.splits if_splits)

theorem Connect_creates_one_node_witness:
  "Connect env_example (NewMembershipManager cfg_example 0) =
     (NewMembershipManager cfg_example 0
        \<lparr>zkc := Some 1,
         schemaFetchJob := Some \<lparr>jobMetaStore = 0, jobClusterName = ''c1'', jobZkc = Some 1\<rparr>\<rparr>,
      Returns None, snd (snd (Connect env_example (NewMembershipManager cfg_example 0))))
   \<and> (\<exists>c d r.
         filter is_create (snd (snd (Connect env_example (NewMembershipManager cfg_example 0)))) =
           [EvZkCreate c ''/ares_controller/c1/instances/n1'' d 1
              [\<lparr>Perms = 0x1f, Scheme = ''world'', ID = ''anyone''\<rparr>] (Inr r)])"
proof -
  let ?mm = "NewMembershipManager cfg_example 0"
  have h: "Connect env_example ?mm =
     (?mm\<lparr>zkc := Some 1,
         schemaFetchJob := Some \<lparr>jobMetaStore = 0, jobClusterName = ''c1'', jobZkc = Some 1\<rparr>\<rparr>,
      Returns None, snd (snd (Connect env_example ?mm)))"
    by (simp add: Connect_example)
  have "ClusterName (Cluster (cfg ?mm)) = ''c1''" "InstanceName (Cluster (cfg ?mm)) = ''n1''"
    by (simp_all add: example_defs)
  with Connect_creates_one_node [OF h] h show ?thesis by auto
qed

subsection \<open>The bootstrap fetch\<close>

text \<open>
  Claim C4: in every run of \<open>Connect\<close> in which the call \<open>FetchApplySchema(true)\<close>
  answers with an error, \<open>Connect\<close> returns that error and the background loop is not
  started (the run has no \<open>go Run()\<close>).
\<close>

theorem Connect_bootstrap_error:
  assumes "Connect e mm = (mm', out, tr)"
    and "EvFetchApplySchema job True (Some err) \<in> set tr"
  shows "out = Returns (Some err) \<and> filter is_go_run tr = []"
  using assms
  by (auto simp: Connect_defs split: option.splits sum.splits if_splits)

theorem Connect_bootstrap_error_witness:
  "fst (snd (Connect env_fetch_fails (NewMembershipManager cfg_example 0)))
     = Returns (Some (ErrCollaborator ''schema''))
   \<and> filter is_go_run (snd (snd (Connect env_fetch_fails (NewMembershipManager cfg_example 0)))) = []"
proof -
  let ?job = "\<lparr>jobMetaStore = 0, jobClusterName = ''c1'', jobZkc = Some 1\<rparr>"
  let ?r = "Connect env_fetch_fails (NewMembershipManager cfg_example 0)"
  have h1: "?r = (fst ?r, fst (snd ?r), snd (snd ?r))" by simp
  have h2: "EvFetchApplySchema ?job True (Some (ErrCollaborator ''schema'')) \<in> set (snd (snd ?r))"
    by (simp add: Connect_fetch_fails_example)
  from Connect_bootstrap_error [OF h1 h2] show ?thesis .
qed

subsection \<open>One session\<close>

lemma Connect_keeps_session:
  "zkc mm = Some c \<Longrightarrow> zkc (fst (Connect e mm)) = Some c"
  by (auto simp: Connect_defs split: option.splits sum.splits)

lemma Connect_no_open_when_held:
  "zkc mm = Some c \<Longrightarrow> filter session_opened (snd (snd (Connect e mm))) = []"
  by (auto simp: Connect_defs split: option.splits sum.splits)

lemma Connect_opens_at_most_one:
  "length (filter session_opened (snd (snd (Connect e mm)))) \<le> 1"
  by (auto simp: Connect_defs split: option.splits sum.splits)

lemma Connect_open_sets_handle:
  "filter session_opened (snd (snd (Connect e mm))) \<noteq> [] \<Longrightarrow> zkc (fst (Connect e mm)) \<noteq> None"
  by (auto simp: Connect_defs split: option.splits sum.splits if_splits)

lemma Connects_no_open_when_held:
  "zkc mm = Some c \<Longrightarrow> filter session_opened (snd (Connects es mm)) = []"
proof (induction es arbitrary: mm)
  case Nil
  then show ?case by simp
next
  case (Cons e es)
  obtain mm' out tr where r: "Connect e mm = (mm', out, tr)"
    by (cases "Connect e mm") auto
  have z: "zkc mm' = Some c"
    using Connect_keeps_session [OF Cons.prems, of e] r by simp
  have t: "filter session_opened tr = []"
    using Connect_no_open_when_held [OF Cons.prems, of e] r by simp
  show ?case
    using r t Cons.IH [OF z] by (cases out) (auto split: prod.splits)
qed

lemma Connects_opens_at_most_one:
  "length (filter session_opened (snd (Connects es mm))) \<le> 1"
proof (induction es arbitrary: mm)
  case Nil
  then show ?case by simp
next
  case (Cons e es)
  obtain mm' out tr where r: "Connect e mm = (mm', out, tr)"
    by (cases "Connect e mm") auto
  have one: "length (filter session_opened tr) \<le> 1"
    using Connect_opens_at_most_one [of e mm] r by simp
  show ?case
  proof (cases "filter session_opened tr = []")
    case True
    then show ?thesis
      using r Cons.IH [of mm'] by (cases out) (auto split: prod.splits)
  next
    case False
    then have "zkc mm' \<noteq> None"
      using Connect_open_sets_handle [of e mm] r by simp
    then obtain c where "zkc mm' = Some c" by auto
    then have "filter session_opened (snd (Connects es mm')) = []"
      by (rule Connects_no_open_when_held)
    then show ?thesis
      using r one by (cases out) (auto split: prod.splits)
  qed
qed

text \<open>
  Claim C5: \<open>Connect\<close> calls \<open>zk.Connect\<close> exactly when the manager holds no session,
  and then once; a session the manager holds is kept as it is. So over any sequence
  of calls of \<open>Connect\<close> at most one session is opened, and none if the manager held one
  at the start: the manager never holds two sessions.
\<close>

theorem Connect_reuses_session:
  "filter is_zk_connect (snd (snd (Connect e mm))) =
     (if zkc mm = None
      then [EvZkConnect (strings_Split (ZKs (ZK (Clients (cfg mm)))) CHR '','')
              (TimeoutSeconds (ZK (Clients (cfg mm))) * 1000000000)
              (zk_Connect e (strings_Split (ZKs (ZK (Clients (cfg mm)))) CHR '','')
                 (TimeoutSeconds (ZK (Clients (cfg mm))) * 1000000000))]
      else [])
   \<and> zkc (fst (Connect e mm)) =
       (case zkc mm of
          Some c \<Rightarrow> Some c
        | None \<Rightarrow>
            (case zk_Connect e (strings_Split (ZKs (ZK (Clients (cfg mm)))) CHR '','')
                    (TimeoutSeconds (ZK (Clients (cfg mm))) * 1000000000) of
               Inl err \<Rightarrow> None
             | Inr c \<Rightarrow> Some c))
   \<and> length (filter session_opened (snd (Connects es mm))) \<le> (if zkc mm = None then 1 else 0)"
proof -
  have a: "filter is_zk_connect (snd (snd (Connect e mm))) =
     (if zkc mm = None
      then [EvZkConnect (strings_Split (ZKs (ZK (Clients (cfg mm)))) CHR '','')
              (TimeoutSeconds (ZK (Clients (cfg mm))) * 1000000000)
              (zk_Connect e (strings_Split (ZKs (ZK (Clients (cfg mm)))) CHR '','')
                 (TimeoutSeconds (ZK (Clients (cfg mm))) * 1000000000))]
      else [])"
    by (auto simp: Connect_defs time_Second_def split: option.splits sum.splits)
  have b: "zkc (fst (Connect e mm)) =
       (case zkc mm of
          Some c \<Rightarrow> Some c
        | None \<Rightarrow>
            (case zk_Connect e (strings_Split (ZKs (ZK (Clients (cfg mm)))) CHR '','')
                    (TimeoutSeconds (ZK (Clients (cfg mm))) * 1000000000) of
               Inl err \<Rightarrow> None
             | Inr c \<Rightarrow> Some c))"
    by (auto simp: Connect_defs time_Second_def split: option.splits sum.splits)
  have c: "length (filter session_opened (snd (Connects es mm)))
             \<le> (if zkc mm = None then 1 else 0)"
    using Connects_opens_at_most_one [of es mm] Connects_no_open_when_held [of mm _ es] by auto
  from a b c show ?thesis by blast
qed

subsection \<open>Disconnect\<close>

lemma Disconnect_example:
  "Disconnect {} (fst (Connect env_example (NewMembershipManager cfg_example 0))) =
     (fst (Connect env_example (NewMembershipManager cfg_example 0)), Returns (),
      [EvZkClose 1, EvStop \<lparr>jobMetaStore = 0, jobClusterName = ''c1'', jobZkc = Some 1\<rparr>],
      {1})"
  by (simp add: Connect_example Disconnect_def)

lemma Disconnect_again_example:
  "Disconnect {1} (fst (Connect env_example (NewMembershipManager cfg_example 0))) =
     (fst (Connect env_example (NewMembershipManager cfg_example 0)),
      PanicCloseOfClosedChannel, [], {1})"
  by (simp add: Connect_example Disconnect_def)

text \<open>
  Claim C6, as the spec states it: every call of \<open>Disconnect\<close> after a successful
  \<open>Connect\<close> closes the session, then stops the job, and returns. \<open>Disconnect\<close>
  leaves the handle of the closed session in the manager: after the successful
  \<open>Connect\<close> of the example and a first \<open>Disconnect\<close>, which closes session 1, a
  second \<open>Disconnect\<close> panics in \<open>Close\<close>; it makes no call that returns, does not
  reach \<open>Stop\<close>, and does not return.
\<close>

theorem Disconnect_after_Connect_counterexample:
  "fst (snd (Connect env_example (NewMembershipManager cfg_example 0))) = Returns None
   \<and> snd (snd (snd (Disconnect {} (fst (Connect env_example (NewMembershipManager cfg_example 0))))))
       = {1}
   \<and> Disconnect {1} (fst (Connect env_example (NewMembershipManager cfg_example 0))) =
       (fst (Connect env_example (NewMembershipManager cfg_example 0)),
        PanicCloseOfClosedChannel, [], {1})
   \<and> fst (snd (Disconnect {1} (fst (Connect env_example (NewMembershipManager cfg_example 0)))))
       \<noteq> Returns ()"
proof -
  let ?mm = "fst (Connect env_example (NewMembershipManager cfg_example 0))"
  have a: "fst (snd (Connect env_example (NewMembershipManager cfg_example 0))) = Returns None"
    by (simp add: Connect_example)
  have b: "snd (snd (snd (Disconnect {} ?mm))) = {1}"
    by (simp only: Disconnect_example) simp
  have c: "fst (snd (Disconnect {1} ?mm)) \<noteq> Returns ()"
    by (simp only: Disconnect_again_example) simp
  from a b Disconnect_again_example c show ?thesis by blast
qed

text \<open>
  Claim C6, amended: after a run of \<open>Connect\<close> that returned no error the manager
  holds a session and a job; a call of \<open>Disconnect\<close> while that session has not been
  closed makes two calls, \<open>Close\<close> on the session and then \<open>Stop\<close> on the job, and
  returns; it has no error result, and it leaves the fields of the manager as they
  were. A further call of \<open>Disconnect\<close>, on the session now closed, panics in
  \<open>Close\<close> and does not reach \<open>Stop\<close>.
\<close>

theorem Disconnect_after_Connect:
  assumes "Connect e mm = (mm', Returns None, tr)"
    and "zkc mm' = Some c" and "c \<notin> closed"
  shows "\<exists>job. schemaFetchJob mm' = Some job
           \<and> Disconnect closed mm' =
               (mm', Returns (), [EvZkClose c, EvStop job], insert c closed)
           \<and> Disconnect (insert c closed) mm' =
               (mm', PanicCloseOfClosedChannel, [], insert c closed)"
  using assms
  by (auto simp: Connect_defs Disconnect_def split: option.splits sum.splits if_splits)

theorem Disconnect_after_Connect_witness:
  "zkc (fst (Connect env_example (NewMembershipManager cfg_example 0))) = Some 1
   \<and> 1 \<notin> ({} :: conn set)
   \<and> Disconnect {} (fst (Connect env_example (NewMembershipManager cfg_example 0))) =
       (fst (Connect env_example (NewMembershipManager cfg_example 0)), Returns (),
        [EvZkClose 1, EvStop \<lparr>jobMetaStore = 0, jobClusterName = ''c1'', jobZkc = Some 1\<rparr>],
        {1})"
proof -
  let ?mm = "NewMembershipManager cfg_example 0"
  have h: "Connect env_example ?mm =
     (fst (Connect env_example ?mm), Returns None, snd (snd (Connect env_example ?mm)))"
    by (simp add: Connect_example)
  have z: "zkc (fst (Connect env_example ?mm)) = Some 1"
    by (simp add: Connect_example)
  have n: "1 \<notin> ({} :: conn set)" by simp
  from Disconnect_after_Connect [OF h z n] z n show ?thesis
    by (auto simp: Connect_example)
qed




subsection \<open>Failure and order inside Connect\<close>

text \<open>
  Claim C7: in every run of \<open>Connect\<close> whose session step returned no error and that
  returns an error \<open>err\<close>, the manager holds the session of the session step when
  \<open>Connect\<close> returns, nothing but its job handle has changed since that step, and the
  run makes no \<open>Close\<close> and no \<open>Stop\<close> call (membership.go has no call that deletes a
  node): session and node stay. The error is the first failure: with an empty instance
  name it is the invalid-instance-name error and every call of the run succeeded;
  otherwise the last call of the run answered \<open>err\<close> and every call before it
  succeeded.
\<close>

theorem Connect_no_rollback:
  assumes "acquire_session e mm = (mm1, None, tr1)"
    and "Connect e mm = (mm', Returns (Some err), tr)"
  shows "\<exists>c. zkc mm1 = Some c \<and> zkc mm' = Some c
         \<and> mm'\<lparr>schemaFetchJob := schemaFetchJob mm1\<rparr> = mm1
         \<and> filter is_teardown tr = []
         \<and> (if InstanceName (Cluster (cfg mm)) = []
             then err = ErrInvalidInstanceName \<and> map ev_error tr = replicate (length tr) None
             else map ev_error tr = replicate (length tr - 1) None @ [Some err])"
  using assms
  by (auto simp: Connect_defs split: option.splits sum.splits if_splits)

theorem Connect_no_rollback_witness:
  "zkc (fst (Connect env_create_fails (NewMembershipManager cfg_example 0))) = Some 1
   \<and> fst (snd (Connect env_create_fails (NewMembershipManager cfg_example 0)))
       = Returns (Some (ErrCollaborator ''zk: node already exists''))
   \<and> filter is_teardown (snd (snd (Connect env_create_fails (NewMembershipManager cfg_example 0)))) = []"
proof -
  let ?mm = "NewMembershipManager cfg_example 0"
  let ?r = "Connect env_create_fails ?mm"
  have h1: "acquire_session env_create_fails ?mm =
              (?mm\<lparr>zkc := Some 1\<rparr>, None,
               [EvZkConnect [''zk1:2181'', ''zk2:2181''] 5000000000 (Inr 1)])"
    by (simp add: acquire_session_def initZKConnection_def Let_def example_defs time_Second_def)
  have h2: "?r = (fst ?r, Returns (Some (ErrCollaborator ''zk: node already exists'')), snd (snd ?r))"
    by (simp add: Connect_create_fails_example)
  from Connect_no_rollback [OF h1 h2] h2 show ?thesis by (auto simp: Connect_create_fails_example)
qed

text \<open>
  Claim C8: every run of \<open>Connect\<close> that returns no error ends with three calls in
  this order: the node-create call, which succeeded; the call
  \<open>FetchApplySchema(true)\<close>, which returned no error; and the start of the background
  loop on the job the manager now holds. The loop is started once, after the fetch
  has returned, and \<open>Connect\<close> returns after that.
\<close>

theorem Connect_success_order:
  assumes "Connect e mm = (mm', Returns None, tr)"
  shows "\<exists>pre c p d f a r job.
           tr = pre @ [EvZkCreate c p d f a (Inr r), EvFetchApplySchema job True None, EvGoRun job]
         \<and> filter is_go_run pre = [] \<and> schemaFetchJob mm' = Some job"
  using assms
  by (auto simp: Connect_defs split: option.splits sum.splits if_splits)

theorem Connect_success_order_witness:
  "fst (snd (Connect env_example (NewMembershipManager cfg_example 0))) = Returns None
   \<and> (\<exists>pre c p d f a r job.
         snd (snd (Connect env_example (NewMembershipManager cfg_example 0))) =
           pre @ [EvZkCreate c p d f a (Inr r), EvFetchApplySchema job True None, EvGoRun job])"
proof -
  let ?r = "Connect env_example (NewMembershipManager cfg_example 0)"
  have h: "?r = (fst ?r, Returns None, snd (snd ?r))"
    by (simp add: Connect_example)
  from Connect_success_order [OF h] h show ?thesis by (metis fst_conv snd_conv)
qed

subsection \<open>The background loop\<close>

lemma Run_fetches:
  "filter is_fetch (fst (Run fetch i sigs)) =
     map (\<lambda>k. RunFetch (fetch k)) [i ..< i + length (takeWhile (\<lambda>s. s = Tick) sigs)]"
proof (induction sigs arbitrary: i)
  case Nil
  then show ?case by simp
next
  case (Cons s sigs)
  show ?case
  proof (cases s)
    case Tick
    have "[i ..< i + Suc (length (takeWhile (\<lambda>s. s = Tick) sigs))]
            = i # [Suc i ..< Suc i + length (takeWhile (\<lambda>s. s = Tick) sigs)]"
      by (simp add: upt_rec)
    with Tick Cons.IH [of "Suc i"] show ?thesis
      by (auto simp: Let_def split: prod.splits option.splits)
  next
    case StopSignal
    then show ?thesis by simp
  qed
qed

lemma Run_reports:
  "concat (map reported (fst (Run fetch i sigs))) =
     concat (map (\<lambda>k. failure (fetch k)) [i ..< i + length (takeWhile (\<lambda>s. s = Tick) sigs)])"
proof (induction sigs arbitrary: i)
  case Nil
  then show ?case by simp
next
  case (Cons s sigs)
  show ?case
  proof (cases s)
    case Tick
    have "[i ..< i + Suc (length (takeWhile (\<lambda>s. s = Tick) sigs))]
            = i # [Suc i ..< Suc i + length (takeWhile (\<lambda>s. s = Tick) sigs)]"
      by (simp add: upt_rec)
    with Tick Cons.IH [of "Suc i"] show ?thesis
      by (auto simp: Let_def split: prod.splits option.splits)
  next
    case StopSignal
    then show ?thesis by simp
  qed
qed

lemma Run_exited: "snd (Run fetch i sigs) = (StopSignal \<in> set sigs)"
proof (induction sigs arbitrary: i)
  case Nil
  then show ?case by simp
next
  case (Cons s sigs)
  show ?case
  proof (cases s)
    case Tick
    obtain rest ex where r: "Run fetch (Suc i) sigs = (rest, ex)"
      by (cases "Run fetch (Suc i) sigs") auto
    from Cons.IH [of "Suc i"] r have "ex = (StopSignal \<in> set sigs)" by simp
    with Tick r show ?thesis by (simp add: Let_def)
  next
    case StopSignal
    then show ?thesis by simp
  qed
qed

text \<open>
  Claim C9: whatever the fetches answer, errors included, the loop makes one call
  \<open>FetchApplySchema(false)\<close> for every interval that elapses before the stop signal,
  it reports the error of every fetch that failed, and it has exited exactly when the
  stop signal has arrived: an error in an iteration does not end the loop.
\<close>

theorem Run_survives_errors:
  "filter is_fetch (fst (Run fetch i sigs)) =
     map (\<lambda>k. RunFetch (fetch k)) [i ..< i + length (takeWhile (\<lambda>s. s = Tick) sigs)]
   \<and> concat (map reported (fst (Run fetch i sigs))) =
       concat (map (\<lambda>k. failure (fetch k))
                 [i ..< i + length (takeWhile (\<lambda>s. s = Tick) sigs)])
   \<and> snd (Run fetch i sigs) = (StopSignal \<in> set sigs)"
  using Run_fetches [of fetch i sigs] Run_reports [of fetch i sigs] Run_exited [of fetch i sigs]
  by simp

lemma Run_failing_fetches_example:
  "Run (\<lambda>k. Some (ErrCollaborator ''schema'')) 0 [Tick, Tick, StopSignal, Tick] =
     ([RunFetch (Some (ErrCollaborator ''schema'')), RunReport (ErrCollaborator ''schema''),
       RunFetch (Some (ErrCollaborator ''schema'')), RunReport (ErrCollaborator ''schema'')],
      True)"
  by (simp add: Let_def)

subsection \<open>The content of the presence node\<close>

text \<open>
  The decoder reads back what the encoder writes, up to the bytes that are not UTF-8:
  first for single bytes and escapes, then for strings, for integers and for the
  whole object.
\<close>

lemma nat_below_16:
  "(d::nat) < 16 \<Longrightarrow> d \<in> {0,1,2,3,4,5,6,7,8,9,10,11,12,13,14,15}"
  by simp arith

lemma unhex_hex: "d < 16 \<Longrightarrow> unhex (hex d) = Some d"
  by (drule nat_below_16) (auto simp: hex_def unhex_def)

lemma digit_val_hex: "d < 10 \<Longrightarrow> digit_val (hex d) = Some d"
proof -
  assume "d < 10"
  then have "d \<in> {0,1,2,3,4,5,6,7,8,9}" by simp arith
  then show ?thesis by (auto simp: hex_def digit_val_def)
qed

lemma hex_not_minus: "d < 10 \<Longrightarrow> hex d \<noteq> CHR ''-''"
proof -
  assume "d < 10"
  then have "d \<in> {0,1,2,3,4,5,6,7,8,9}" by simp arith
  then show ?thesis by (auto simp: hex_def)
qed

lemma getu4_byte:
  assumes "n < 0x80"
  shows "getu4 (CHR ''0'' # CHR ''0'' # hex (n div 16) # hex (n mod 16) # t) = Some n"
proof -
  have a: "n div 16 < 16" using assms by simp
  have b: "n mod 16 < 16" by simp
  have z: "unhex CHR ''0'' = Some 0" by (simp add: unhex_def)
  show ?thesis
    by (simp add: z unhex_hex [OF a] unhex_hex [OF b])
qed

lemma EncodeRune_byte: "(of_char b :: nat) < 0x80 \<Longrightarrow> EncodeRune (of_char b) = [b]"
  by (simp add: EncodeRune_def)

lemma prepend_Some [simp]: "prepend p (Some (t, k)) = Some (p @ t, k)"
  by (simp add: prepend_def)

lemma unquote_escape_byte:
  assumes "(of_char b :: nat) < 0x80" and "\<not> htmlSafe b"
  shows "unquote_body (escape_byte b @ t) = prepend [b] (unquote_body t)"
proof -
  consider (q) "b = backslash \<or> b = dquote" | (n) "b = CHR 0x0A" | (r) "b = CHR 0x0D"
    | (t) "b = CHR 0x09"
    | (u) "b \<noteq> backslash" "b \<noteq> dquote" "b \<noteq> CHR 0x0A" "b \<noteq> CHR 0x0D" "b \<noteq> CHR 0x09"
    by blast
  then show ?thesis
  proof cases
    case q
    then show ?thesis
      by (auto simp: escape_byte_def unescape_def backslash_def dquote_def)
  next
    case n
    then show ?thesis
      by (simp add: escape_byte_def unescape_def backslash_def dquote_def)
  next
    case r
    then show ?thesis
      by (simp add: escape_byte_def unescape_def backslash_def dquote_def)
  next
    case t
    then show ?thesis
      by (simp add: escape_byte_def unescape_def backslash_def dquote_def)
  next
    case u
    have e: "escape_byte b = [backslash, CHR ''u'', CHR ''0'', CHR ''0'',
            hex (of_char b div 16), hex (of_char b mod 16)]"
      using u by (simp add: escape_byte_def)
    have g: "getu4 (CHR ''0'' # CHR ''0'' # hex (of_char b div 16) # hex (of_char b mod 16) # t)
               = Some (of_char b)"
      by (rule getu4_byte [OF assms(1)])
    show ?thesis
      using assms(1) g by (simp add: e backslash_def dquote_def EncodeRune_byte)
  qed
qed


lemma char_eq_of_nat: "(of_char c :: nat) = n \<Longrightarrow> c = char_of n"
  by auto

lemma char_of_nat_eqI: "(of_char c :: nat) = n mod 256 \<Longrightarrow> char_of n = c"
  by (metis char_of_char char_of_mod_256)

lemma DecodeRune_2:
  assumes "0xC2 \<le> (of_char b :: nat)" "(of_char b :: nat) \<le> 0xDF"
  shows "DecodeRune (b # rest) =
     (case rest of
        c1 # _ \<Rightarrow>
          if second_ok b c1 then ((of_char b mod 32) * 64 + of_char c1 mod 64, 2)
          else (RuneError, 1)
      | _ \<Rightarrow> (RuneError, 1))"
  using assms by (simp add: Let_def)

lemma DecodeRune_3:
  assumes "0xE0 \<le> (of_char b :: nat)" "(of_char b :: nat) \<le> 0xEF"
  shows "DecodeRune (b # rest) =
     (case rest of
        c1 # c2 # _ \<Rightarrow>
          if second_ok b c1 \<and> cont c2
          then ((of_char b mod 16) * 4096 + (of_char c1 mod 64) * 64 + of_char c2 mod 64, 3)
          else (RuneError, 1)
      | _ \<Rightarrow> (RuneError, 1))"
  using assms by (simp add: Let_def)

lemma DecodeRune_4:
  assumes "0xF0 \<le> (of_char b :: nat)" "(of_char b :: nat) \<le> 0xF4"
  shows "DecodeRune (b # rest) =
     (case rest of
        c1 # c2 # c3 # _ \<Rightarrow>
          if second_ok b c1 \<and> cont c2 \<and> cont c3
          then ((of_char b mod 8) * 262144 + (of_char c1 mod 64) * 4096
                  + (of_char c2 mod 64) * 64 + of_char c3 mod 64, 4)
          else (RuneError, 1)
      | _ \<Rightarrow> (RuneError, 1))"
  using assms by (simp add: Let_def)

lemma DecodeRune_bad:
  assumes "0x80 \<le> (of_char b :: nat)"
    and "\<not> (0xC2 \<le> (of_char b :: nat) \<and> (of_char b :: nat) \<le> 0xDF)"
    and "\<not> (0xE0 \<le> (of_char b :: nat) \<and> (of_char b :: nat) \<le> 0xEF)"
    and "\<not> (0xF0 \<le> (of_char b :: nat) \<and> (of_char b :: nat) \<le> 0xF4)"
  shows "DecodeRune (b # rest) = (RuneError, 1)"
  using assms by (auto simp: Let_def)

lemma DecodeRune_1:
  "(of_char b :: nat) < 0x80 \<Longrightarrow> DecodeRune (b # rest) = (of_char b, 1)"
  by (simp add: Let_def)

declare DecodeRune.simps(2) [simp del]

lemma DecodeRune_stable:
  assumes hi: "0x80 \<le> (of_char b :: nat)"
    and ok: "\<not> (fst (DecodeRune (b # rest)) = RuneError \<and> snd (DecodeRune (b # rest)) = 1)"
  shows "DecodeRune (b # take (snd (DecodeRune (b # rest)) - 1) rest @ X) = DecodeRune (b # rest)
         \<and> snd (DecodeRune (b # rest)) - 1 \<le> length rest"
proof -
  consider (two) "0xC2 \<le> (of_char b :: nat)" "(of_char b :: nat) \<le> 0xDF"
    | (three) "0xE0 \<le> (of_char b :: nat)" "(of_char b :: nat) \<le> 0xEF"
    | (four) "0xF0 \<le> (of_char b :: nat)" "(of_char b :: nat) \<le> 0xF4"
    | (bad) "\<not> (0xC2 \<le> (of_char b :: nat) \<and> (of_char b :: nat) \<le> 0xDF)"
        "\<not> (0xE0 \<le> (of_char b :: nat) \<and> (of_char b :: nat) \<le> 0xEF)"
        "\<not> (0xF0 \<le> (of_char b :: nat) \<and> (of_char b :: nat) \<le> 0xF4)"
    by blast
  then show ?thesis
  proof cases
    case two
    note d = DecodeRune_2 [OF two]
    from ok show ?thesis
      by (cases rest) (simp_all add: d split: if_splits)
  next
    case three
    note d = DecodeRune_3 [OF three]
    show ?thesis
    proof (cases rest)
      case Nil
      with ok show ?thesis by (simp add: d)
    next
      case (Cons c1 r1)
      with ok show ?thesis
        by (cases r1) (simp_all add: d split: if_splits)
    qed
  next
    case four
    note d = DecodeRune_4 [OF four]
    show ?thesis
    proof (cases rest)
      case Nil
      with ok show ?thesis by (simp add: d)
    next
      case (Cons c1 r1)
      note r = Cons
      show ?thesis
      proof (cases r1)
        case Nil
        with ok r show ?thesis by (simp add: d)
      next
        case (Cons c2 r2)
        with ok r show ?thesis
          by (cases r2) (simp_all add: d split: if_splits)
      qed
    qed
  next
    case bad
    from ok DecodeRune_bad [OF hi bad] show ?thesis by simp
  qed
qed


lemma separator_digits:
  fixes x y z d :: nat
  assumes "x * 4096 + y * 64 + z = 8232 + d" "d < 2" "y < 64" "z < 64"
  shows "x = 2 \<and> y = 0 \<and> z = 40 + d"
proof -
  have x: "x = 2" using assms by arith
  with assms(1) have e: "y * 64 + z = 40 + d" by simp
  have y: "y = 0"
  proof (cases y)
    case 0
    then show ?thesis .
  next
    case (Suc n)
    with e assms(2) show ?thesis by simp
  qed
  with e have "z = 40 + d" by simp
  with x y show ?thesis by simp
qed

lemma low_six_bits:
  fixes b :: nat
  assumes "128 \<le> b" "b \<le> 191"
  shows "b = 128 + b mod 64"
proof -
  define k where "k = b - 128"
  have b: "b = k + 2 * 64" and k: "k < 64" using assms by (simp_all add: k_def)
  have "b mod 64 = k mod 64" unfolding b by (rule mod_mult_self1)
  with k have "b mod 64 = k" by simp
  with b show ?thesis by simp
qed

lemma low_four_bits:
  fixes b :: nat
  assumes "224 \<le> b" "b \<le> 239"
  shows "b = 224 + b mod 16"
proof -
  define k where "k = b - 224"
  have b: "b = k + 14 * 16" and k: "k < 16" using assms by (simp_all add: k_def)
  have "b mod 16 = k mod 16" unfolding b by (rule mod_mult_self1)
  with k have "b mod 16 = k" by simp
  with b show ?thesis by simp
qed

lemma second_ok_range:
  "second_ok c0 c1 \<Longrightarrow> 0x80 \<le> (of_char c1 :: nat) \<and> (of_char c1 :: nat) \<le> 0xBF"
  by (auto simp: second_ok_def Let_def split: if_splits)

lemma EncodeRune_separator:
  "d < 2 \<Longrightarrow> EncodeRune (0x2028 + d) = [CHR 0xE2, CHR 0x80, char_of (0xA8 + d)]"
proof -
  assume "d < 2"
  then have "d = 0 \<or> d = 1" by arith
  moreover have "char_of (226 :: nat) = CHR 0xE2" by (rule char_of_nat_eqI) simp
  moreover have "char_of (128 :: nat) = CHR 0x80" by (rule char_of_nat_eqI) simp
  ultimately show ?thesis by (auto simp: EncodeRune_def)
qed

lemma DecodeRune_separator:
  assumes hi: "0x80 \<le> (of_char b :: nat)"
    and c: "fst (DecodeRune (b # rest)) = 0x2028 + d" and d: "d < 2"
  shows "snd (DecodeRune (b # rest)) = 3 \<and> b # take 2 rest = EncodeRune (0x2028 + d)
         \<and> 2 \<le> length rest"
proof -
  consider (two) "0xC2 \<le> (of_char b :: nat)" "(of_char b :: nat) \<le> 0xDF"
    | (three) "0xE0 \<le> (of_char b :: nat)" "(of_char b :: nat) \<le> 0xEF"
    | (four) "0xF0 \<le> (of_char b :: nat)" "(of_char b :: nat) \<le> 0xF4"
    | (bad) "\<not> (0xC2 \<le> (of_char b :: nat) \<and> (of_char b :: nat) \<le> 0xDF)"
        "\<not> (0xE0 \<le> (of_char b :: nat) \<and> (of_char b :: nat) \<le> 0xEF)"
        "\<not> (0xF0 \<le> (of_char b :: nat) \<and> (of_char b :: nat) \<le> 0xF4)"
    by blast
  then show ?thesis
  proof cases
    case two
    have small: "\<And>c1. (of_char b mod 32) * 64 + (of_char c1 :: nat) mod 64 < 0x2028"
    proof -
      fix c1
      have "(of_char b :: nat) mod 32 < 32" "(of_char c1 :: nat) mod 64 < 64" by simp_all
      then show "(of_char b mod 32) * 64 + (of_char c1 :: nat) mod 64 < 0x2028" by arith
    qed
    show ?thesis
    proof (cases rest)
      case Nil
      with c d show ?thesis by (simp add: DecodeRune_2 [OF two] RuneError_def)
    next
      case (Cons c1 r1)
      with c d small [of c1] show ?thesis
        by (simp add: DecodeRune_2 [OF two] RuneError_def split: if_splits)
    qed
  next
    case three
    note dr = DecodeRune_3 [OF three]
    show ?thesis
    proof (cases rest)
      case Nil
      with c d show ?thesis by (simp add: dr RuneError_def)
    next
      case (Cons c1 r1)
      note r = Cons
      show ?thesis
      proof (cases r1)
        case Nil
        with c d r show ?thesis by (simp add: dr RuneError_def)
      next
        case (Cons c2 r2)
        show ?thesis
        proof (cases "second_ok b c1 \<and> cont c2")
          case False
          with c d r Cons show ?thesis by (auto simp: dr RuneError_def)
        next
          case True
          with c r Cons have v: "(of_char b mod 16) * 4096 + (of_char c1 mod 64) * 64
                    + (of_char c2 :: nat) mod 64 = 8232 + d"
            by (simp add: dr)
          have s: "(of_char b :: nat) mod 16 = 2 \<and> (of_char c1 :: nat) mod 64 = 0
                    \<and> (of_char c2 :: nat) mod 64 = 40 + d"
            by (rule separator_digits [OF v d]) simp_all
          have r1: "0x80 \<le> (of_char c1 :: nat) \<and> (of_char c1 :: nat) \<le> 0xBF"
            using True second_ok_range by blast
          have r2: "0x80 \<le> (of_char c2 :: nat) \<and> (of_char c2 :: nat) \<le> 0xBF"
            using True by (simp add: cont_def)
          have "(of_char b :: nat) = 0xE2"
            using low_four_bits [of "of_char b"] three s by simp
          then have "(of_char b :: nat) = of_char (CHR 0xE2)" by simp
          then have b: "b = CHR 0xE2" by (simp only: of_char_eq_iff)
          have "(of_char c1 :: nat) = 0x80"
            using low_six_bits [of "of_char c1"] r1 s by simp
          then have "(of_char c1 :: nat) = of_char (CHR 0x80)" by simp
          then have c1: "c1 = CHR 0x80" by (simp only: of_char_eq_iff)
          have "(of_char c2 :: nat) = 0xA8 + d"
            using low_six_bits [of "of_char c2"] r2 s by simp
          then have c2: "c2 = char_of (0xA8 + d)" by (rule char_eq_of_nat)
          have sz: "snd (DecodeRune (b # rest)) = 3"
            using True r Cons by (simp add: dr)
          have "b # take 2 rest = [b, c1, c2]" "2 \<le> length rest"
            using r Cons by simp_all
          with sz b c1 c2 show ?thesis
            by (simp add: EncodeRune_separator [OF d])
        qed
      qed
    qed
  next
    case four
    note dr = DecodeRune_4 [OF four]
    have big: "\<And>c1 c2 c3. second_ok b c1 \<Longrightarrow>
                 0x2028 + d < (of_char b mod 8) * 262144 + ((of_char c1 :: nat) mod 64) * 4096
                  + ((of_char c2 :: nat) mod 64) * 64 + (of_char c3 :: nat) mod 64"
    proof -
      fix c1 c2 c3
      assume ok: "second_ok b c1"
      show "0x2028 + d < (of_char b mod 8) * 262144 + ((of_char c1 :: nat) mod 64) * 4096
                  + ((of_char c2 :: nat) mod 64) * 64 + (of_char c3 :: nat) mod 64"
      proof (cases "(of_char b :: nat) = 0xF0")
        case True
        with ok have "0x90 \<le> (of_char c1 :: nat)" "(of_char c1 :: nat) \<le> 0xBF"
          by (simp_all add: second_ok_def Let_def)
        then have "16 \<le> (of_char c1 :: nat) mod 64"
          using low_six_bits [of "of_char c1"] by simp
        then have "65536 \<le> ((of_char c1 :: nat) mod 64) * 4096" by simp
        with d show ?thesis by simp
      next
        case False
        with four have "0xF1 \<le> (of_char b :: nat)" by simp
        with four have "1 \<le> (of_char b :: nat) mod 8" by presburger
        then have "262144 \<le> ((of_char b :: nat) mod 8) * 262144" by simp
        with d show ?thesis by simp
      qed
    qed
    show ?thesis
    proof (cases rest)
      case Nil
      with c d show ?thesis by (simp add: dr RuneError_def)
    next
      case (Cons c1 r1)
      note r = Cons
      show ?thesis
      proof (cases r1)
        case Nil
        with c d r show ?thesis by (simp add: dr RuneError_def)
      next
        case (Cons c2 r2)
        note rr = Cons
        show ?thesis
        proof (cases r2)
          case Nil
          with c d r rr show ?thesis by (simp add: dr RuneError_def)
        next
          case (Cons c3 r3)
          with c d r rr big [of c1 c2 c3] show ?thesis
            by (auto simp: dr RuneError_def split: if_splits)
        qed
      qed
    qed
  next
    case bad
    from c d DecodeRune_bad [OF hi bad] show ?thesis by (simp add: RuneError_def)
  qed
qed


lemma of_char_dquote: "(of_char dquote :: nat) = 0x22"
  by (simp add: dquote_def)

lemma of_char_backslash: "(of_char backslash :: nat) = 0x5C"
  by (simp add: backslash_def)

lemma unquote_dquote: "unquote_body (dquote # k) = Some ([], k)"
  by simp

lemma unquote_plain:
  assumes "htmlSafe b"
  shows "unquote_body (b # t) = prepend [b] (unquote_body t)"
  using assms by (auto simp: htmlSafe_def)

lemma unquote_u:
  "unquote_body (backslash # CHR ''u'' # t) =
     (case getu4 t of
        None \<Rightarrow> None
      | Some r \<Rightarrow>
          if 0xD800 \<le> r \<and> r < 0xE000 then None
          else prepend (EncodeRune r) (unquote_body (drop 4 t)))"
  by (simp add: backslash_def dquote_def)

lemma unquote_high:
  assumes "0x80 \<le> (of_char b :: nat)"
  shows "unquote_body (b # t) =
     (if fst (DecodeRune (b # t)) = RuneError \<and> snd (DecodeRune (b # t)) = 1
      then prepend (EncodeRune RuneError) (unquote_body t)
      else prepend (b # take (snd (DecodeRune (b # t)) - 1) t)
             (unquote_body (drop (snd (DecodeRune (b # t)) - 1) t)))"
proof -
  have "b \<noteq> dquote" "b \<noteq> backslash"
    using assms of_char_dquote of_char_backslash by auto
  with assms show ?thesis by (simp add: Let_def)
qed

declare unquote_body.simps(2) [simp del]

lemma string_body_ascii:
  "(of_char b :: nat) < 0x80 \<Longrightarrow>
   string_body (b # rest) = (if htmlSafe b then [b] else escape_byte b) @ string_body rest"
  by simp

lemma string_body_high:
  assumes "0x80 \<le> (of_char b :: nat)"
  shows "string_body (b # rest) =
     (if fst (DecodeRune (b # rest)) = RuneError \<and> snd (DecodeRune (b # rest)) = 1
      then (backslash # ''ufffd'') @ string_body rest
      else if fst (DecodeRune (b # rest)) = 0x2028 \<or> fst (DecodeRune (b # rest)) = 0x2029
      then (backslash # ''u202'') @ [hex (fst (DecodeRune (b # rest)) mod 16)]
             @ string_body (drop (snd (DecodeRune (b # rest)) - 1) rest)
      else b # take (snd (DecodeRune (b # rest)) - 1) rest
             @ string_body (drop (snd (DecodeRune (b # rest)) - 1) rest))"
  using assms by (simp add: Let_def)

declare string_body.simps(2) [simp del]

lemma replace_invalid_ascii:
  "(of_char b :: nat) < 0x80 \<Longrightarrow> replace_invalid (b # rest) = b # replace_invalid rest"
  by (simp add: DecodeRune_1 RuneError_def)

lemma replace_invalid_high:
  "replace_invalid (b # rest) =
     (if fst (DecodeRune (b # rest)) = RuneError \<and> snd (DecodeRune (b # rest)) = 1
      then [CHR 0xEF, CHR 0xBF, CHR 0xBD] @ replace_invalid rest
      else b # take (snd (DecodeRune (b # rest)) - 1) rest
             @ replace_invalid (drop (snd (DecodeRune (b # rest)) - 1) rest))"
  by (simp add: Let_def)

declare replace_invalid.simps(2) [simp del]

lemma EncodeRune_RuneError: "EncodeRune RuneError = [CHR 0xEF, CHR 0xBF, CHR 0xBD]"
proof -
  have "char_of (239 :: nat) = CHR 0xEF" by (rule char_of_nat_eqI) simp
  moreover have "char_of (191 :: nat) = CHR 0xBF" by (rule char_of_nat_eqI) simp
  moreover have "char_of (189 :: nat) = CHR 0xBD" by (rule char_of_nat_eqI) simp
  ultimately show ?thesis by (simp add: EncodeRune_def RuneError_def)
qed

lemma getu4_fffd: "getu4 (''fffd'' @ t) = Some RuneError"
  by (simp add: unhex_def RuneError_def)

lemma getu4_separator:
  assumes "d < 2"
  shows "getu4 (''202'' @ [hex ((0x2028 + d) mod 16)] @ t) = Some (0x2028 + d)"
proof -
  from assms have "d = 0 \<or> d = 1" by arith
  then show ?thesis by (auto simp: unhex_def hex_def)
qed

lemma unquote_string_body:
  "unquote_body (string_body s @ dquote # k) = Some (replace_invalid s, k)"
proof (induction s rule: length_induct)
  case (1 s)
  show ?case
  proof (cases s)
    case Nil
    then show ?thesis by (simp add: unquote_dquote)
  next
    case (Cons b rest)
    have ih: "\<And>n. unquote_body (string_body (drop n rest) @ dquote # k)
                = Some (replace_invalid (drop n rest), k)"
      using 1 Cons by simp
    have ih0: "unquote_body (string_body rest @ dquote # k) = Some (replace_invalid rest, k)"
      using ih [of 0] by simp
    show ?thesis
    proof (cases "(of_char b :: nat) < 0x80")
      case True
      show ?thesis
      proof (cases "htmlSafe b")
        case safe: True
        then show ?thesis
          using True Cons ih0
          by (simp add: string_body_ascii unquote_plain replace_invalid_ascii)
      next
        case False
        then show ?thesis
          using True Cons ih0
          by (simp add: string_body_ascii unquote_escape_byte replace_invalid_ascii)
      qed
    next
      case False
      then have hi: "0x80 \<le> (of_char b :: nat)" by simp
      let ?c = "fst (DecodeRune (b # rest))"
      let ?sz = "snd (DecodeRune (b # rest))"
      show ?thesis
      proof (cases "?c = RuneError \<and> ?sz = 1")
        case True
        have "string_body s = (backslash # ''ufffd'') @ string_body rest"
          using True Cons by (simp add: string_body_high [OF hi])
        moreover have "replace_invalid s = [CHR 0xEF, CHR 0xBF, CHR 0xBD] @ replace_invalid rest"
          using True Cons by (simp add: replace_invalid_high)
        moreover have "unquote_body (backslash # CHR ''u'' # ''fffd'' @ string_body rest @ dquote # k)
                = Some ([CHR 0xEF, CHR 0xBF, CHR 0xBD] @ replace_invalid rest, k)"
          unfolding unquote_u getu4_fffd
          using ih0 by (simp add: RuneError_def EncodeRune_RuneError [unfolded RuneError_def])
        ultimately show ?thesis by simp
      next
        case valid: False
        show ?thesis
        proof (cases "?c = 0x2028 \<or> ?c = 0x2029")
          case True
          then obtain d where d: "d < 2" and c: "?c = 0x2028 + d"
          proof
            assume "?c = 0x2028"
            then have "(0::nat) < 2" "?c = 0x2028 + 0" by simp_all
            then show ?thesis by (rule that)
          next
            assume "?c = 0x2029"
            then have "(1::nat) < 2" "?c = 0x2028 + 1" by simp_all
            then show ?thesis by (rule that)
          qed
          from DecodeRune_separator [OF hi c d]
          have sz: "?sz = 3" and bytes: "b # take 2 rest = EncodeRune (0x2028 + d)"
            by simp_all
          have "string_body s = (backslash # ''u202'') @ [hex ((0x2028 + d) mod 16)]
                   @ string_body (drop 2 rest)"
            using True valid Cons c sz by (simp add: string_body_high [OF hi])
          moreover have "replace_invalid s = EncodeRune (0x2028 + d) @ replace_invalid (drop 2 rest)"
            using valid Cons sz bytes by (simp add: replace_invalid_high)
          moreover have "unquote_body (backslash # CHR ''u'' # ''202'' @ [hex ((0x2028 + d) mod 16)]
                   @ string_body (drop 2 rest) @ dquote # k)
                = Some (EncodeRune (0x2028 + d) @ replace_invalid (drop 2 rest), k)"
            unfolding unquote_u getu4_separator [OF d]
            using ih [of 2] d by simp
          ultimately show ?thesis by simp
        next
          case False
          define n where "n = ?sz - 1"
          define X where "X = string_body (drop n rest) @ dquote # k"
          have n1: "?sz - 1 = n" and n2: "?sz - Suc 0 = n" by (simp_all add: n_def)
          from DecodeRune_stable [OF hi valid, of X]
          have st: "DecodeRune (b # take n rest @ X) = DecodeRune (b # rest)"
            and len: "n \<le> length rest"
            by (simp_all add: n2)
          have "string_body s = b # take n rest @ string_body (drop n rest)"
            using False valid by (simp only: Cons string_body_high [OF hi] n1 if_False)
          moreover have "replace_invalid s = b # take n rest @ replace_invalid (drop n rest)"
            using valid by (simp only: Cons replace_invalid_high n1 if_False)
          moreover have "unquote_body (b # take n rest @ X)
                  = Some (b # take n rest @ replace_invalid (drop n rest), k)"
          proof -
            have "unquote_body (b # take n rest @ X)
                    = prepend (b # take n (take n rest @ X))
                        (unquote_body (drop n (take n rest @ X)))"
              using valid by (simp only: unquote_high [OF hi] st n1 if_False)
            also have "take n (take n rest @ X) = take n rest" using len by simp
            also have "drop n (take n rest @ X) = X" using len by simp
            also have "unquote_body X = Some (replace_invalid (drop n rest), k)"
              unfolding X_def by (rule ih)
            finally show ?thesis by simp
          qed
          ultimately show ?thesis by (simp add: X_def)
        qed
      qed
    qed
  qed
qed


lemma ValidString_Cons:
  "ValidString (b # rest) =
     (if fst (DecodeRune (b # rest)) = RuneError \<and> snd (DecodeRune (b # rest)) = 1 then False
      else ValidString (drop (snd (DecodeRune (b # rest)) - 1) rest))"
  by (simp add: Let_def)

declare ValidString.simps(2) [simp del]

lemma replace_invalid_valid: "ValidString s \<Longrightarrow> replace_invalid s = s"
proof (induction s rule: length_induct)
  case (1 s)
  show ?case
  proof (cases s)
    case Nil
    then show ?thesis by simp
  next
    case (Cons b rest)
    let ?n = "snd (DecodeRune (b # rest)) - 1"
    from "1.prems" Cons
    have valid: "\<not> (fst (DecodeRune (b # rest)) = RuneError \<and> snd (DecodeRune (b # rest)) = 1)"
      and v: "ValidString (drop ?n rest)"
      by (simp_all add: ValidString_Cons split: if_splits)
    have "replace_invalid (drop ?n rest) = drop ?n rest"
      using 1 Cons v by simp
    moreover have "replace_invalid s = b # take ?n rest @ replace_invalid (drop ?n rest)"
      using valid by (simp only: Cons replace_invalid_high if_False)
    ultimately show ?thesis using Cons by simp
  qed
qed

lemma digits_small: "n < 10 \<Longrightarrow> digits n = [hex n]"
  by (subst digits.simps) simp

lemma digits_large: "\<not> n < 10 \<Longrightarrow> digits n = digits (n div 10) @ [hex (n mod 10)]"
  by (subst digits.simps) simp

declare digits.simps [simp del]

lemma digit_val_brace: "digit_val CHR ''}'' = None"
  by (simp add: digit_val_def)

lemma read_digits_digits:
  "read_digits acc (digits n @ t) = read_digits (acc * 10 ^ length (digits n) + n) t"
proof (induction n arbitrary: acc t rule: digits.induct)
  case (1 n)
  show ?case
  proof (cases "n < 10")
    case True
    then have "digits n = [hex n]" by (rule digits_small)
    with True show ?thesis by (simp add: digit_val_hex)
  next
    case False
    let ?L = "length (digits (n div 10))"
    have d: "digits n = digits (n div 10) @ [hex (n mod 10)]"
      using False by (rule digits_large)
    have "read_digits acc (digits n @ t)
            = read_digits acc (digits (n div 10) @ hex (n mod 10) # t)"
      by (simp add: d)
    also have "\<dots> = read_digits (acc * 10 ^ ?L + n div 10) (hex (n mod 10) # t)"
      using "1.IH" [OF False] by simp
    also have "\<dots> = read_digits ((acc * 10 ^ ?L + n div 10) * 10 + n mod 10) t"
      by (simp add: digit_val_hex)
    also have "(acc * 10 ^ ?L + n div 10) * 10 + n mod 10 = acc * 10 ^ length (digits n) + n"
      by (simp add: d algebra_simps)
    finally show ?thesis .
  qed
qed

lemma digits_head:
  "\<exists>d cs. digits n = hex d # cs \<and> d < 10 \<and> (if d = 0 then n = 0 \<and> cs = [] else True)"
proof (induction n rule: digits.induct)
  case (1 n)
  show ?case
  proof (cases "n < 10")
    case True
    then have "digits n = hex n # []" by (rule digits_small)
    moreover have "(if n = 0 then n = 0 \<and> ([] :: string) = [] else True)" by simp
    ultimately show ?thesis using True by blast
  next
    case False
    have d: "digits n = digits (n div 10) @ [hex (n mod 10)]"
      using False by (rule digits_large)
    from "1.IH" [OF False] obtain d' cs where
      h: "digits (n div 10) = hex d' # cs" "d' < 10"
         "(if d' = 0 then n div 10 = 0 \<and> cs = [] else True)"
      by blast
    from False have "n div 10 \<noteq> 0" by simp
    with h(3) have "d' \<noteq> 0" by (auto split: if_splits)
    with h d show ?thesis by auto
  qed
qed

lemma parse_int_unsigned:
  assumes "digit_val c = Some d" and "c \<noteq> CHR ''-''"
    and "\<not> (d = 0 \<and> (case cs of c' # _ \<Rightarrow> digit_val c' \<noteq> None | [] \<Rightarrow> False))"
    and "read_digits 0 (c # cs) = (n, rest)" and "int n < 2 ^ 63"
  shows "parse_int (c # cs) = Some (word_of_int (int n), rest)"
  using assms by (simp add: parse_int_def Let_def)

lemma parse_int_signed:
  assumes "digit_val c = Some d"
    and "\<not> (d = 0 \<and> (case cs of c' # _ \<Rightarrow> digit_val c' \<noteq> None | [] \<Rightarrow> False))"
    and "read_digits 0 (c # cs) = (n, rest)" and "- (2 ^ 63) \<le> - int n"
  shows "parse_int (CHR ''-'' # c # cs) = Some (word_of_int (- int n), rest)"
  using assms by (simp add: parse_int_def Let_def)

lemma parse_int_negative:
  assumes neg: "sint w < 0"
  shows "parse_int (CHR ''-'' # digits (nat (- sint w)) @ CHR ''}'' # k) = Some (w, CHR ''}'' # k)"
proof -
  define n where "n = nat (- sint w)"
  obtain d cs where h: "digits n = hex d # cs" "d < 10"
      "(if d = 0 then n = 0 \<and> cs = [] else True)"
    using digits_head [of n] by blast
  have rd: "read_digits 0 (hex d # cs @ CHR ''}'' # k) = (n, CHR ''}'' # k)"
    using read_digits_digits [of 0 n "CHR ''}'' # k"] by (simp add: h(1) digit_val_brace)
  have lead: "\<not> (d = 0 \<and> (case cs @ CHR ''}'' # k of c' # _ \<Rightarrow> digit_val c' \<noteq> None | [] \<Rightarrow> False))"
    using h(3) by (auto simp: digit_val_brace split: if_splits)
  have v: "- int n = sint w" using neg by (simp add: n_def)
  have "- (2 ^ 63) \<le> sint w" using sint_ge [of w] by simp
  then have range: "- (2 ^ 63) \<le> - int n" by (simp only: v)
  have "parse_int (CHR ''-'' # hex d # cs @ CHR ''}'' # k)
          = Some (word_of_int (- int n), CHR ''}'' # k)"
    by (rule parse_int_signed [OF digit_val_hex [OF h(2)] lead rd range])
  also have "word_of_int (- int n) = w" unfolding v by simp
  finally have "parse_int (CHR ''-'' # hex d # cs @ CHR ''}'' # k) = Some (w, CHR ''}'' # k)" .
  moreover have "digits (nat (- sint w)) = hex d # cs" using h(1) by (simp add: n_def)
  ultimately show ?thesis by simp
qed

lemma parse_int_nonnegative:
  assumes nonneg: "\<not> sint w < 0"
  shows "parse_int (digits (nat (sint w)) @ CHR ''}'' # k) = Some (w, CHR ''}'' # k)"
proof -
  define n where "n = nat (sint w)"
  obtain d cs where h: "digits n = hex d # cs" "d < 10"
      "(if d = 0 then n = 0 \<and> cs = [] else True)"
    using digits_head [of n] by blast
  have rd: "read_digits 0 (hex d # cs @ CHR ''}'' # k) = (n, CHR ''}'' # k)"
    using read_digits_digits [of 0 n "CHR ''}'' # k"] by (simp add: h(1) digit_val_brace)
  have lead: "\<not> (d = 0 \<and> (case cs @ CHR ''}'' # k of c' # _ \<Rightarrow> digit_val c' \<noteq> None | [] \<Rightarrow> False))"
    using h(3) by (auto simp: digit_val_brace split: if_splits)
  have m: "hex d \<noteq> CHR ''-''" by (rule hex_not_minus [OF h(2)])
  have v: "int n = sint w" using nonneg by (simp add: n_def)
  have "sint w < 2 ^ 63" using sint_lt [of w] by simp
  then have range: "int n < 2 ^ 63" by (simp only: v)
  have "parse_int (hex d # cs @ CHR ''}'' # k) = Some (word_of_int (int n), CHR ''}'' # k)"
    by (rule parse_int_unsigned [OF digit_val_hex [OF h(2)] m lead rd range])
  also have "word_of_int (int n) = w" unfolding v by simp
  finally have "parse_int (hex d # cs @ CHR ''}'' # k) = Some (w, CHR ''}'' # k)" .
  moreover have "digits (nat (sint w)) = hex d # cs" using h(1) by (simp add: n_def)
  ultimately show ?thesis by simp
qed

lemma parse_int_FormatInt: "parse_int (FormatInt w @ CHR ''}'' # k) = Some (w, CHR ''}'' # k)"
proof (cases "sint w < 0")
  case True
  then have "FormatInt w = CHR ''-'' # digits (nat (- sint w))"
    by (simp only: FormatInt_def if_True)
  then show ?thesis using parse_int_negative [OF True, of k] by simp
next
  case False
  then have "FormatInt w = digits (nat (sint w))"
    by (simp only: FormatInt_def if_False)
  then show ?thesis using parse_int_nonnegative [OF False, of k] by simp
qed

lemma expect_prefix: "expect p (p @ s) = Some s"
  by (simp add: expect_def)

lemma decode_encode_Instance:
  "decode_Instance (encode_Instance i) =
     Some \<lparr>instName = replace_invalid (instName i), instHost = replace_invalid (instHost i),
           instPort = instPort i\<rparr>"
proof -
  let ?p1 = "''{'' @ appendString ''Name'' @ '':'' @ [dquote]"
  let ?p2 = "'','' @ appendString ''Host'' @ '':'' @ [dquote]"
  let ?p3 = "'','' @ appendString ''Port'' @ '':''"
  let ?s5 = "FormatInt (instPort i) @ ''}''"
  let ?s3 = "string_body (instHost i) @ dquote # ?p3 @ ?s5"
  let ?s1 = "string_body (instName i) @ dquote # ?p2 @ ?s3"
  have e: "encode_Instance i = ?p1 @ ?s1"
    by (simp add: encode_Instance_def appendString_def)
  have u1: "unquote_body ?s1 = Some (replace_invalid (instName i), ?p2 @ ?s3)"
    by (rule unquote_string_body)
  have u2: "unquote_body ?s3 = Some (replace_invalid (instHost i), ?p3 @ ?s5)"
    by (rule unquote_string_body)
  have u3: "parse_int ?s5 = Some (instPort i, ''}'')"
    using parse_int_FormatInt [of "instPort i" "[]"] by simp
  show ?thesis
    unfolding decode_Instance_def e
    by (simp only: expect_prefix u1 u2 u3 option.case prod.case) simp
qed

lemma Connect_payload_any:
  assumes "Connect e mm = (mm', Returns None, tr)"
  shows "\<exists>h d. os_Hostname e = Inr h
           \<and> json_Marshal e \<lparr>instName = InstanceName (Cluster (cfg mm)), instHost = h,
                               instPort = Port (cfg mm)\<rparr> = Inr d
           \<and> concat (map node_data tr) = [d]"
  using assms
  by (auto simp: Connect_defs split: option.splits sum.splits if_splits)

lemma replace_invalid_FF: "replace_invalid [CHR 0xFF] = [CHR 0xEF, CHR 0xBF, CHR 0xBD]"
  by (simp add: replace_invalid_high DecodeRune_bad)

lemma ValidString_ascii:
  "(of_char b :: nat) < 0x80 \<Longrightarrow> ValidString (b # rest) = ValidString rest"
  by (simp add: ValidString_Cons DecodeRune_1 RuneError_def)

lemma Connect_bad_host_example:
  "Connect env_bad_host (NewMembershipManager cfg_example 0) =
     (NewMembershipManager cfg_example 0
        \<lparr>zkc := Some 1,
         schemaFetchJob := Some \<lparr>jobMetaStore = 0, jobClusterName = ''c1'', jobZkc = Some 1\<rparr>\<rparr>,
      Returns None,
      [EvZkConnect [''zk1:2181'', ''zk2:2181''] 5000000000 (Inr 1),
       EvHostname (Inr [CHR 0xFF]),
       EvMarshal \<lparr>instName = ''n1'', instHost = [CHR 0xFF], instPort = 8080\<rparr>
         (Inr (encode_Instance \<lparr>instName = ''n1'', instHost = [CHR 0xFF], instPort = 8080\<rparr>)),
       EvZkCreate 1 ''/ares_controller/c1/instances/n1''
         (encode_Instance \<lparr>instName = ''n1'', instHost = [CHR 0xFF], instPort = 8080\<rparr>) 1
         [\<lparr>Perms = 0x1f, Scheme = ''world'', ID = ''anyone''\<rparr>]
         (Inr ''/ares_controller/c1/instances/n1''),
       EvFetchApplySchema \<lparr>jobMetaStore = 0, jobClusterName = ''c1'', jobZkc = Some 1\<rparr> True None,
       EvGoRun \<lparr>jobMetaStore = 0, jobClusterName = ''c1'', jobZkc = Some 1\<rparr>])"
  by (simp add: Connect_defs example_defs time_Second_def go_json_Marshal_def node_path_def
      zk_WorldACL_def zk_PermAll_def zk_FlagEphemeral_def NewSchemaFetchJob_def)

text \<open>
  Claim C3, as the spec states it: for every successful \<open>Connect\<close>, deserializing the
  node content yields exactly the configured instance name, the resolved host name and
  the configured port. \<open>json.Marshal\<close> coerces strings to valid UTF-8: when
  \<open>os.Hostname\<close> answers with the single byte 0xFF, \<open>Connect\<close> succeeds and the host
  that is read back from the node is U+FFFD, the three bytes 0xEF 0xBF 0xBD.
\<close>

theorem Connect_payload_counterexample:
  "fst (snd (Connect env_bad_host (NewMembershipManager cfg_example 0))) = Returns None
   \<and> os_Hostname env_bad_host = Inr [CHR 0xFF]
   \<and> concat (map node_data (snd (snd (Connect env_bad_host (NewMembershipManager cfg_example 0)))))
       = [encode_Instance \<lparr>instName = ''n1'', instHost = [CHR 0xFF], instPort = 8080\<rparr>]
   \<and> decode_Instance (encode_Instance \<lparr>instName = ''n1'', instHost = [CHR 0xFF], instPort = 8080\<rparr>)
       = Some \<lparr>instName = ''n1'', instHost = [CHR 0xEF, CHR 0xBF, CHR 0xBD], instPort = 8080\<rparr>
   \<and> decode_Instance (encode_Instance \<lparr>instName = ''n1'', instHost = [CHR 0xFF], instPort = 8080\<rparr>)
       \<noteq> Some \<lparr>instName = ''n1'', instHost = [CHR 0xFF], instPort = 8080\<rparr>"
proof -
  have v: "ValidString ''n1''" by (simp add: ValidString_ascii)
  have "decode_Instance (encode_Instance \<lparr>instName = ''n1'', instHost = [CHR 0xFF], instPort = 8080\<rparr>)
       = Some \<lparr>instName = ''n1'', instHost = [CHR 0xEF, CHR 0xBF, CHR 0xBD], instPort = 8080\<rparr>"
    by (simp add: decode_encode_Instance replace_invalid_FF replace_invalid_valid [OF v])
  then show ?thesis
    by (simp add: Connect_bad_host_example) (simp add: example_defs)
qed

text \<open>
  Claim C3, amended: for every successful \<open>Connect\<close> (with \<open>json.Marshal\<close> the
  encoder of encoding/json), the node is created with the JSON serialization of the
  \<open>Instance\<close> whose name is the configured instance name, whose host is the host name
  resolved in this call and whose port is the configured port; when the instance name
  and the host name are valid UTF-8, deserializing that content yields exactly these
  three values. (A name or host that is not valid UTF-8 is read back with each byte
  that is not UTF-8 replaced by U+FFFD; the port is always read back as it was.)
\<close>

theorem Connect_payload:
  assumes "Connect e mm = (mm', Returns None, tr)"
    and "json_Marshal e = go_json_Marshal"
    and "os_Hostname e = Inr h"
  shows "concat (map node_data tr) =
           [encode_Instance \<lparr>instName = InstanceName (Cluster (cfg mm)), instHost = h,
                             instPort = Port (cfg mm)\<rparr>]
         \<and> decode_Instance (encode_Instance \<lparr>instName = InstanceName (Cluster (cfg mm)),
                                             instHost = h, instPort = Port (cfg mm)\<rparr>)
             = Some \<lparr>instName =
                       (if ValidString (InstanceName (Cluster (cfg mm)))
                        then InstanceName (Cluster (cfg mm))
                        else replace_invalid (InstanceName (Cluster (cfg mm)))),
                     instHost = (if ValidString h then h else replace_invalid h),
                     instPort = Port (cfg mm)\<rparr>"
proof -
  from Connect_payload_any [OF assms(1)] assms(2,3)
  have "concat (map node_data tr) =
           [encode_Instance \<lparr>instName = InstanceName (Cluster (cfg mm)), instHost = h,
                             instPort = Port (cfg mm)\<rparr>]"
    by (auto simp: go_json_Marshal_def)
  moreover have "\<And>s. (if ValidString s then s else replace_invalid s) = replace_invalid s"
    by (simp add: replace_invalid_valid)
  ultimately show ?thesis
    by (simp add: decode_encode_Instance)
qed

theorem Connect_payload_witness:
  "ValidString ''n1'' \<and> ValidString ''h1''
   \<and> concat (map node_data (snd (snd (Connect env_example (NewMembershipManager cfg_example 0)))))
       = [''{\"Name\":\"n1\",\"Host\":\"h1\",\"Port\":8080}'']
   \<and> decode_Instance ''{\"Name\":\"n1\",\"Host\":\"h1\",\"Port\":8080}''
       = Some \<lparr>instName = ''n1'', instHost = ''h1'', instPort = 8080\<rparr>"
proof -
  let ?mm = "NewMembershipManager cfg_example 0"
  let ?r = "Connect env_example ?mm"
  have h1: "?r = (fst ?r, Returns None, snd (snd ?r))"
    by (simp add: Connect_example)
  have h2: "json_Marshal env_example = go_json_Marshal"
    and h3: "os_Hostname env_example = Inr ''h1''"
    by (simp_all add: env_example_def)
  have n: "InstanceName (Cluster (cfg ?mm)) = ''n1''" and p: "Port (cfg ?mm) = 8080"
    by (simp_all add: example_defs)
  have h5: "ValidString ''h1''" and v: "ValidString ''n1''"
    by (simp_all add: ValidString_ascii)
  have d: "concat (map node_data (snd (snd ?r))) = [''{\"Name\":\"n1\",\"Host\":\"h1\",\"Port\":8080}'']"
    by (simp add: Connect_example)
  from Connect_payload [OF h1 h2 h3] d h5 v show ?thesis
    by (simp add: n p)
qed

end
